theory Spec2Isabelle
  imports Complex_Main "HOL-Library.Word"
begin

unbundle bit_operations_syntax

section \<open>Binary32 arithmetic\<close>

text \<open>
  The simulator stores every quantity of the physics engine as a C++ \<open>float\<close>, an IEEE
  binary32 number.  A finite \<open>float\<close> is carried as the real number it stands for, and each
  arithmetic operation of the source is the exact operation followed by \<open>round32\<close>, rounding
  to the nearest binary32 number with ties to the even significand.  Every operation is
  rounded on its own (no fused multiply-add), a decimal literal such as \<open>0.35f\<close> is the
  rounding of its decimal value, and comparisons are exact.  Infinities and NaN are outside
  the model: results are taken to stay below \<open>2 ^ 128\<close> in magnitude.

  \<open>binade x\<close> is the exponent of the binary32 binade of \<open>x\<close>: the largest \<open>e\<close> between -126
  and 127 with \<open>2 ^ e \<le> |x|\<close>, found by bisection, and -126 for the subnormal numbers and
  zero.  The numbers of that binade are the multiples of \<open>2 ^ (e - 23)\<close>.  The square root
  is the correctly rounded one, as IEEE 754 requires of \<open>sqrtf\<close>; its value at a given
  argument is settled below by squaring the two neighbours of the result.
\<close>

definition binade :: "real \<Rightarrow> int" where
  "binade x =
     fold (\<lambda>w lo. if 2 powi (lo + w) \<le> \<bar>x\<bar> then lo + w else lo)
          [128, 64, 32, 16, 8, 4, 2, 1] (- 126)"

definition rne :: "real \<Rightarrow> int" where
  \<comment> \<open>the nearest integer, a tie going to the even one\<close>
  "rne t =
     (let f = \<lfloor>t\<rfloor>; d = t - of_int f
      in if d < 1 / 2 then f else if 1 / 2 < d then f + 1 else if even f then f else f + 1)"

definition round32 :: "real \<Rightarrow> real" where
  "round32 x = (let q = 2 powi (binade x - 23) in of_int (rne (x / q)) * q)"

definition fadd :: "real \<Rightarrow> real \<Rightarrow> real" where
  "fadd a b = round32 (a + b)"

definition fsub :: "real \<Rightarrow> real \<Rightarrow> real" where
  "fsub a b = round32 (a - b)"

definition fmul :: "real \<Rightarrow> real \<Rightarrow> real" where
  "fmul a b = round32 (a * b)"

definition fdiv :: "real \<Rightarrow> real \<Rightarrow> real" where
  "fdiv a b = round32 (a / b)"

definition fsqrt :: "real \<Rightarrow> real" where
  \<comment> \<open>\<open>sqrtf\<close>: the correctly rounded square root\<close>
  "fsqrt a = round32 (sqrt a)"

section \<open>Engine value types\<close>

text \<open>
  Vectors, quaternions and transforms of the engine, with the engine's own arrangement of
  each expression.  \<open>PxU32\<close> is a 32-bit word.
\<close>

datatype PxVec3 = PxVec3 (vec_x: real) (vec_y: real) (vec_z: real)

datatype PxQuat = PxQuat (quat_x: real) (quat_y: real) (quat_z: real) (quat_w: real)

datatype PxTransform = PxTransform (pose_p: PxVec3) (pose_q: PxQuat)

definition vec_zero :: PxVec3 where
  \<comment> \<open>\<open>PxVec3(0)\<close>\<close>
  "vec_zero = PxVec3 0 0 0"

definition quat_identity :: PxQuat where
  \<comment> \<open>\<open>PxQuat(PxIdentity)\<close>\<close>
  "quat_identity = PxQuat 0 0 0 1"

definition transform_of_pos :: "PxVec3 \<Rightarrow> PxTransform" where
  \<comment> \<open>\<open>PxTransform(const PxVec3&)\<close>: the given position, no rotation\<close>
  "transform_of_pos v = PxTransform v quat_identity"

definition transform_identity :: PxTransform where
  \<comment> \<open>\<open>PxTransform(PxIdentity)\<close>\<close>
  "transform_identity = PxTransform vec_zero quat_identity"

fun vec_add :: "PxVec3 \<Rightarrow> PxVec3 \<Rightarrow> PxVec3" where
  "vec_add (PxVec3 a b c) (PxVec3 d e f) = PxVec3 (fadd a d) (fadd b e) (fadd c f)"

fun vec_sub :: "PxVec3 \<Rightarrow> PxVec3 \<Rightarrow> PxVec3" where
  "vec_sub (PxVec3 a b c) (PxVec3 d e f) = PxVec3 (fsub a d) (fsub b e) (fsub c f)"

fun vec_scale :: "PxVec3 \<Rightarrow> real \<Rightarrow> PxVec3" where
  "vec_scale (PxVec3 a b c) k = PxVec3 (fmul a k) (fmul b k) (fmul c k)"

fun magnitude :: "PxVec3 \<Rightarrow> real" where
  \<comment> \<open>\<open>PxVec3::magnitude\<close>: \<open>PxSqrt(x * x + y * y + z * z)\<close>\<close>
  "magnitude (PxVec3 a b c) = fsqrt (fadd (fadd (fmul a a) (fmul b b)) (fmul c c))"

fun rotate :: "PxQuat \<Rightarrow> PxVec3 \<Rightarrow> PxVec3" where
  \<comment> \<open>\<open>PxQuat::rotate\<close>:
      \<open>vx = 2 * v.x; ...; w2 = w * w - 0.5; dot2 = x * vx + y * vy + z * vz;\<close>
      \<open>(vx * w2 + (y * vz - z * vy) * w + x * dot2, ...)\<close>\<close>
  "rotate (PxQuat qx qy qz qw) (PxVec3 a b c) =
     (let ax = fmul 2 a; ay = fmul 2 b; az = fmul 2 c;
          w2 = fsub (fmul qw qw) (1 / 2);
          dot2 = fadd (fadd (fmul qx ax) (fmul qy ay)) (fmul qz az)
      in PxVec3 (fadd (fadd (fmul ax w2) (fmul (fsub (fmul qy az) (fmul qz ay)) qw)) (fmul qx dot2))
                (fadd (fadd (fmul ay w2) (fmul (fsub (fmul qz ax) (fmul qx az)) qw)) (fmul qy dot2))
                (fadd (fadd (fmul az w2) (fmul (fsub (fmul qx ay) (fmul qy ax)) qw)) (fmul qz dot2)))"

fun quat_mul :: "PxQuat \<Rightarrow> PxQuat \<Rightarrow> PxQuat" where
  \<comment> \<open>\<open>PxQuat::operator*\<close>\<close>
  "quat_mul (PxQuat ax ay az aw) (PxQuat bx by bz bw) =
     PxQuat (fsub (fadd (fadd (fmul aw bx) (fmul bw ax)) (fmul ay bz)) (fmul by az))
            (fsub (fadd (fadd (fmul aw by) (fmul bw ay)) (fmul az bx)) (fmul bz ax))
            (fsub (fadd (fadd (fmul aw bz) (fmul bw az)) (fmul ax by)) (fmul bx ay))
            (fsub (fsub (fsub (fmul aw bw) (fmul ax bx)) (fmul ay by)) (fmul az bz))"

definition transform_point :: "PxTransform \<Rightarrow> PxVec3 \<Rightarrow> PxVec3" where
  \<comment> \<open>\<open>PxTransform::transform(const PxVec3&)\<close>\<close>
  "transform_point t v = vec_add (rotate (pose_q t) v) (pose_p t)"

definition transform_pose :: "PxTransform \<Rightarrow> PxTransform \<Rightarrow> PxTransform" where
  \<comment> \<open>\<open>PxTransform::transform(const PxTransform&)\<close>\<close>
  "transform_pose t src =
     PxTransform (vec_add (rotate (pose_q t) (pose_p src)) (pose_p t))
                 (quat_mul (pose_q t) (pose_q src))"

section \<open>Collision filtering (SimulationFilter.h)\<close>

type_synonym PxU32 = "32 word"

definition eGROUND :: PxU32 where "eGROUND = push_bit 0 1"
definition eCHASSIS :: PxU32 where "eCHASSIS = push_bit 1 1"
definition eWHEEL :: PxU32 where "eWHEEL = push_bit 2 1"
definition eOBSTACLE :: PxU32 where "eOBSTACLE = push_bit 3 1"
definition eBLOCK :: PxU32 where "eBLOCK = push_bit 4 1"

record PxFilterData =
  word0 :: PxU32
  word1 :: PxU32
  word2 :: PxU32
  word3 :: PxU32

definition PxFilterData_default :: PxFilterData where
  \<comment> \<open>the default constructor clears all four words\<close>
  "PxFilterData_default = \<lparr>word0 = 0, word1 = 0, word2 = 0, word3 = 0\<rparr>"

datatype PxGeometry =
    PxBoxGeometry real real real
  | PxCapsuleGeometry real real
  | PxSphereGeometry real

record PxShape =
  geometry :: PxGeometry
  simulationFilterData :: PxFilterData

record PxRigidDynamic =
  globalPose :: PxTransform
  linearVelocity :: PxVec3
  angularVelocity :: PxVec3
  shapes :: "PxShape list"
  density :: real
  linearDamping :: real
  angularDamping :: real

definition createRigidDynamic :: "PxTransform \<Rightarrow> PxRigidDynamic" where
  \<comment> \<open>a new dynamic actor at the given pose: at rest, no shape, no damping yet\<close>
  "createRigidDynamic t =
     \<lparr>globalPose = t, linearVelocity = vec_zero, angularVelocity = vec_zero,
      shapes = [], density = 0, linearDamping = 0, angularDamping = 0\<rparr>"

definition createShape :: "PxGeometry \<Rightarrow> PxShape" where
  "createShape g = \<lparr>geometry = g, simulationFilterData = PxFilterData_default\<rparr>"

definition attachShape :: "PxShape \<Rightarrow> PxRigidDynamic \<Rightarrow> PxRigidDynamic" where
  "attachShape sh a = a\<lparr>shapes := shapes a @ [sh]\<rparr>"

definition SetActorFilter :: "PxRigidDynamic \<Rightarrow> PxU32 \<Rightarrow> PxU32 \<Rightarrow> PxRigidDynamic" where
  \<comment> \<open>the loop over \<open>shapes[i]\<close> writes the same filter data into every shape of the actor\<close>
  "SetActorFilter actor filterGroup filterMask =
     (let filterData = PxFilterData_default\<lparr>word0 := filterGroup, word1 := filterMask\<rparr>
      in actor\<lparr>shapes := map (\<lambda>sh. sh\<lparr>simulationFilterData := filterData\<rparr>) (shapes actor)\<rparr>)"

text \<open>
  The filter shader receives the attribute words and filter data of both objects and the
  pair flags by reference.  \<open>PxFilterObjectIsTrigger\<close> is the engine's test of the trigger
  bit of an attribute word.  Pair flags are kept as the set of the named engine flags that
  were or-ed together; the branch that suppresses a pair leaves the referenced pair flags
  as they came in.
\<close>

type_synonym PxFilterObjectAttributes = PxU32

definition eTRIGGER :: PxU32 where
  \<comment> \<open>\<open>PxFilterObjectFlag::eTRIGGER\<close>\<close>
  "eTRIGGER = push_bit 5 1"

definition PxFilterObjectIsTrigger :: "PxFilterObjectAttributes \<Rightarrow> bool" where
  "PxFilterObjectIsTrigger attr = (attr AND eTRIGGER \<noteq> 0)"

datatype PxPairFlag = eTRIGGER_DEFAULT | eCONTACT_DEFAULT | eNOTIFY_TOUCH_FOUND

datatype PxFilterFlag = eDEFAULT | eSUPPRESS

definition VehicleFilterShader ::
  "PxFilterObjectAttributes \<Rightarrow> PxFilterData \<Rightarrow> PxFilterObjectAttributes \<Rightarrow> PxFilterData
     \<Rightarrow> PxPairFlag set \<Rightarrow> PxFilterFlag \<times> PxPairFlag set" where
  "VehicleFilterShader attributes0 filterData0 attributes1 filterData1 pairFlags =
     (if PxFilterObjectIsTrigger attributes0 \<or> PxFilterObjectIsTrigger attributes1
      then (eDEFAULT, {eTRIGGER_DEFAULT})
      else if word0 filterData0 AND word1 filterData1 \<noteq> 0
              \<and> word0 filterData1 AND word1 filterData0 \<noteq> 0
      then (eDEFAULT, {eCONTACT_DEFAULT} \<union> {eNOTIFY_TOUCH_FOUND})
      else (eSUPPRESS, pairFlags))"

section \<open>Game blocks (GameBlock.h) and the robot (Robot.h, Robot.cpp)\<close>

text \<open>
  Engine objects that exactly one owner refers to (the body of a block, the chassis, the
  wheels and their revolute joints) are kept by value inside their owner.  A pointer to a
  \<open>GameBlock\<close> is the position of the block in the block list of \<open>main\<close> (a
  \<open>std::list\<close>, which only ever grows), and a \<open>PxFixedJoint*\<close> is a handle into the
  engine's table of live fixed joints; \<open>None\<close> is the null pointer.  Engine allocations
  whose result the source tests (\<open>createRigidDynamic\<close> for the chassis,
  \<open>PxFixedJointCreate\<close>) or dereferences at once (\<open>createRigidDynamic\<close> for a block) take
  their outcome as an argument.  Dereferencing a null pointer is the fault
  \<open>NullDereference\<close>.  A block pointer that designates no element of the list cannot be
  formed by the program; where the model would have to read the list out of range it
  answers \<open>InvalidReference\<close> instead.
\<close>

datatype BlockColor = RED | BLUE

record GameBlock =
  body :: "PxRigidDynamic option"
  color :: BlockColor
  held :: bool

record PxRevoluteJoint =
  localPose0 :: PxTransform
  localPose1 :: PxTransform
  driveVelocity :: real
  driveEnabled :: bool
  driveForceLimit :: real

record HeldBlock =
  block :: "nat option"
  joint :: "nat option"

record Robot =
  mChassis :: "PxRigidDynamic option"
  mWheels :: "PxRigidDynamic list"
  mWheelJoints :: "PxRevoluteJoint list"
  mHeldBlocks :: "HeldBlock list"
  mThrottleInput :: real
  mTurnInput :: real

definition MAX_HELD_BLOCKS :: nat where "MAX_HELD_BLOCKS = 8"
definition ROBOT_WIDTH :: real where "ROBOT_WIDTH = round32 (35 / 100)"
definition ROBOT_LENGTH :: real where "ROBOT_LENGTH = round32 (35 / 100)"
definition WHEEL_RADIUS :: real where "WHEEL_RADIUS = round32 (55 / 1000)"
definition WHEEL_WIDTH :: real where "WHEEL_WIDTH = round32 (25 / 1000)"
definition CHASSIS_DENSITY :: real where "CHASSIS_DENSITY = 50"
definition WHEEL_DENSITY :: real where "WHEEL_DENSITY = 10"
definition DRIVE_TORQUE :: real where "DRIVE_TORQUE = 500"
definition INTAKE_RANGE :: real where "INTAKE_RANGE = round32 (35 / 100)"

datatype fault = NullDereference | InvalidReference

definition Robot_ctor :: Robot where
  "Robot_ctor = \<lparr>mChassis = None, mWheels = [], mWheelJoints = [], mHeldBlocks = [],
                  mThrottleInput = 0, mTurnInput = 0\<rparr>"

definition create_wheel :: "PxRigidDynamic \<Rightarrow> real \<Rightarrow> nat \<Rightarrow> PxRigidDynamic \<times> PxRevoluteJoint" where
  \<comment> \<open>the body of the inner loop of \<open>CreateWheels\<close>: one wheel actor and its driven joint\<close>
  "create_wheel chassis side i =
     (let xOffset = fdiv ROBOT_WIDTH 2;
          zSpacing = fdiv ROBOT_LENGTH 3;
          zStart = fdiv (- ROBOT_LENGTH) 2;
          zPos = fadd zStart (fmul (real i) zSpacing);
          wheelShape = createShape (PxCapsuleGeometry WHEEL_RADIUS (fdiv WHEEL_WIDTH 2));
          wheelLocalPose = transform_of_pos (PxVec3 (fmul side xOffset) (- round32 (20 / 100)) zPos);
          chassisPose = globalPose chassis;
          wheelGlobalPose = transform_pose chassisPose wheelLocalPose;
          wheelActor = SetActorFilter
             ((attachShape wheelShape (createRigidDynamic wheelGlobalPose))\<lparr>density := WHEEL_DENSITY\<rparr>)
             eWHEEL (eGROUND OR eOBSTACLE OR eBLOCK);
          jointFrameChassis = transform_of_pos (pose_p wheelLocalPose);
          jointFrameWheel = transform_of_pos (PxVec3 0 0 0);
          j = \<lparr>localPose0 = jointFrameChassis, localPose1 = jointFrameWheel,
               driveVelocity = 0, driveEnabled = True, driveForceLimit = DRIVE_TORQUE\<rparr>
      in (wheelActor, j))"

fun wheels_loop :: "PxRigidDynamic \<Rightarrow> (real \<times> nat) list \<Rightarrow> Robot \<Rightarrow> Robot" where
  "wheels_loop chassis [] r = r"
| "wheels_loop chassis ((side, i) # rest) r =
     (let (wheelActor, j) = create_wheel chassis side i
      in wheels_loop chassis rest
           (r\<lparr>mWheels := mWheels r @ [wheelActor], mWheelJoints := mWheelJoints r @ [j]\<rparr>))"

definition CreateWheels :: "Robot \<Rightarrow> fault + Robot" where
  \<comment> \<open>\<open>side\<close> runs over \<open>-1, 1\<close> and \<open>i\<close> over \<open>0..3\<close>; the chassis is dereferenced unchecked\<close>
  "CreateWheels r =
     (case mChassis r of
        None \<Rightarrow> Inl NullDereference
      | Some chassis \<Rightarrow>
          Inr (wheels_loop chassis (concat (map (\<lambda>side. map (\<lambda>i. (side, i)) [0..<4]) [-1, 1])) r))"

definition Robot_Initialize :: "bool \<Rightarrow> PxVec3 \<Rightarrow> Robot \<Rightarrow> fault + Robot" where
  \<comment> \<open>\<open>created\<close>: whether \<open>createRigidDynamic\<close> returned a chassis actor rather than null\<close>
  "Robot_Initialize created startPos r =
     (if \<not> created then Inr (r\<lparr>mChassis := None\<rparr>)
      else
        let c0 = createRigidDynamic (transform_of_pos startPos);
            chassisShape = createShape
              (PxBoxGeometry (fdiv ROBOT_WIDTH 2) (round32 (15 / 100)) (fdiv ROBOT_LENGTH 2));
            c1 = (attachShape chassisShape c0)\<lparr>density := CHASSIS_DENSITY\<rparr>;
            c2 = SetActorFilter c1 eCHASSIS (eGROUND OR eOBSTACLE OR eCHASSIS OR eBLOCK);
            c3 = c2\<lparr>linearDamping := 1 / 2, angularDamping := round32 (5 / 100)\<rparr>
        in CreateWheels (r\<lparr>mChassis := Some c3\<rparr>))"

definition SetDriveInput :: "real \<Rightarrow> real \<Rightarrow> Robot \<Rightarrow> Robot" where
  "SetDriveInput left right r = r\<lparr>mThrottleInput := left, mTurnInput := right\<rparr>"

definition Robot_Update :: "real \<Rightarrow> Robot \<Rightarrow> Robot" where
  "Robot_Update dt r =
     (if mChassis r = None then r
      else
        let leftInput = max (- 1) (min 1 (mThrottleInput r));
            rightInput = max (- 1) (min 1 (mTurnInput r));
            maxVelocity = 20
        in r\<lparr>mWheelJoints :=
               map (\<lambda>(i, j). let input = (if i < 4 then leftInput else rightInput)
                              in j\<lparr>driveVelocity := fmul input maxVelocity,
                                   driveForceLimit := DRIVE_TORQUE\<rparr>)
                   (enumerate 0 (mWheelJoints r))\<rparr>)"

subsection \<open>The render transform\<close>

text \<open>
  The matrix library is not part of the repository, and how it orders and rounds the sums of
  a matrix product is not fixed by the source.  The entries of the render matrix are
  therefore written in exact arithmetic; only the branch for a null chassis, which returns the
  identity matrix, is relied on below.
\<close>

datatype vec4 = Vec4 real real real real

datatype mat4 = Mat4 vec4 vec4 vec4 vec4  \<comment> \<open>the four columns\<close>

fun v4_scale :: "vec4 \<Rightarrow> real \<Rightarrow> vec4" where
  "v4_scale (Vec4 a b c d) k = Vec4 (a * k) (b * k) (c * k) (d * k)"

fun v4_add :: "vec4 \<Rightarrow> vec4 \<Rightarrow> vec4" where
  "v4_add (Vec4 a b c d) (Vec4 e f g h) = Vec4 (a + e) (b + f) (c + g) (d + h)"

definition mat4_diag :: "real \<Rightarrow> mat4" where
  \<comment> \<open>\<open>glm::mat4(s)\<close>\<close>
  "mat4_diag s = Mat4 (Vec4 s 0 0 0) (Vec4 0 s 0 0) (Vec4 0 0 s 0) (Vec4 0 0 0 s)"

fun mat4_apply :: "mat4 \<Rightarrow> vec4 \<Rightarrow> vec4" where
  "mat4_apply (Mat4 c0 c1 c2 c3) (Vec4 a b c d) =
     v4_add (v4_add (v4_add (v4_scale c0 a) (v4_scale c1 b)) (v4_scale c2 c)) (v4_scale c3 d)"

fun mat4_mul :: "mat4 \<Rightarrow> mat4 \<Rightarrow> mat4" where
  "mat4_mul m (Mat4 c0 c1 c2 c3) =
     Mat4 (mat4_apply m c0) (mat4_apply m c1) (mat4_apply m c2) (mat4_apply m c3)"

fun glm_translate :: "mat4 \<Rightarrow> PxVec3 \<Rightarrow> mat4" where
  "glm_translate (Mat4 c0 c1 c2 c3) (PxVec3 a b c) =
     Mat4 c0 c1 c2 (v4_add (v4_add (v4_add (v4_scale c0 a) (v4_scale c1 b)) (v4_scale c2 c)) c3)"

fun glm_scale :: "mat4 \<Rightarrow> PxVec3 \<Rightarrow> mat4" where
  "glm_scale (Mat4 c0 c1 c2 c3) (PxVec3 a b c) =
     Mat4 (v4_scale c0 a) (v4_scale c1 b) (v4_scale c2 c) c3"

fun mat4_cast :: "PxQuat \<Rightarrow> mat4" where
  \<comment> \<open>\<open>glm::mat4_cast\<close> of the quaternion \<open>(w, x, y, z)\<close>\<close>
  "mat4_cast (PxQuat qx qy qz qw) =
     Mat4 (Vec4 (1 - 2 * (qy * qy + qz * qz)) (2 * (qx * qy + qw * qz)) (2 * (qx * qz - qw * qy)) 0)
          (Vec4 (2 * (qx * qy - qw * qz)) (1 - 2 * (qx * qx + qz * qz)) (2 * (qy * qz + qw * qx)) 0)
          (Vec4 (2 * (qx * qz + qw * qy)) (2 * (qy * qz - qw * qx)) (1 - 2 * (qx * qx + qy * qy)) 0)
          (Vec4 0 0 0 1)"

definition GetTransformMatrix :: "real \<Rightarrow> Robot \<Rightarrow> mat4" where
  "GetTransformMatrix visualScale r =
     (case mChassis r of
        None \<Rightarrow> mat4_diag 1
      | Some chassis \<Rightarrow>
          let pose = globalPose chassis;
              rotation = mat4_cast (pose_q pose);
              translation = glm_translate (mat4_diag 1) (pose_p pose);
              scale = glm_scale (mat4_diag 1) (PxVec3 visualScale visualScale visualScale)
          in mat4_mul (mat4_mul translation rotation) scale)"

subsection \<open>Intake and outtake\<close>

definition GetFrontPosition :: "Robot \<Rightarrow> PxVec3" where
  "GetFrontPosition r =
     (case mChassis r of
        None \<Rightarrow> vec_zero
      | Some chassis \<Rightarrow>
          let pose = globalPose chassis;
              localFront = PxVec3 0 0 (fadd (fdiv ROBOT_LENGTH 2) (round32 (5 / 100)))
          in transform_point pose localFront)"

definition IsIntakeFull :: "Robot \<Rightarrow> bool" where
  "IsIntakeFull r = (length (mHeldBlocks r) \<ge> MAX_HELD_BLOCKS)"

definition HasBlock :: "Robot \<Rightarrow> bool" where
  "HasBlock r = (mHeldBlocks r \<noteq> [])"

definition GetHeldCount :: "Robot \<Rightarrow> nat" where
  "GetHeldCount r = length (mHeldBlocks r)"

definition set_first_shape_filter :: "PxFilterData \<Rightarrow> PxRigidDynamic \<Rightarrow> PxRigidDynamic" where
  \<comment> \<open>\<open>if (getNbShapes() > 0) { getShapes(&shape, 1); shape->setSimulationFilterData(fd); }\<close>\<close>
  "set_first_shape_filter fd a =
     (case shapes a of
        [] \<Rightarrow> a
      | sh # rest \<Rightarrow> a\<lparr>shapes := sh\<lparr>simulationFilterData := fd\<rparr> # rest\<rparr>)"

text \<open>
  The whole simulation: the robot, the block list of \<open>main\<close>, whether the physics world
  has a scene, and the engine's live fixed joints (handle, index of the block whose body the
  joint ties to the chassis) with the next unused handle.
\<close>

record Simulation =
  robot :: Robot
  blocks :: "GameBlock list"
  mScene :: bool
  fixedJoints :: "(nat \<times> nat) list"
  nextJoint :: nat

definition TryIntake :: "nat \<Rightarrow> bool \<Rightarrow> Simulation \<Rightarrow> fault + (bool \<times> Simulation)" where
  \<comment> \<open>\<open>i\<close>: the block referred to; \<open>jointCreated\<close>: whether \<open>PxFixedJointCreate\<close>
      returned a joint rather than null\<close>
  "TryIntake i jointCreated s =
     (if i \<ge> length (blocks s) then Inl InvalidReference
      else
        let r = robot s; blk = blocks s ! i in
        case (mChassis r, body blk) of
          (Some chassis, Some b) \<Rightarrow>
            if held blk then Inr (False, s)
            else if IsIntakeFull r then Inr (False, s)
            else
              let frontPos = GetFrontPosition r;
                  blockPos = pose_p (globalPose b);
                  dist = magnitude (vec_sub frontPos blockPos)
              in if dist > INTAKE_RANGE then Inr (False, s)
                 else
                   let chassisPose = globalPose chassis;
                       holdPos = transform_point chassisPose (PxVec3 0 0 0);
                       b1 = b\<lparr>globalPose := PxTransform holdPos (pose_q chassisPose),
                              linearVelocity := vec_zero, angularVelocity := vec_zero\<rparr>;
                       b2 = set_first_shape_filter
                              (PxFilterData_default\<lparr>word0 := 0, word1 := 0\<rparr>) b1;
                       blk1 = blk\<lparr>body := Some b2\<rparr>
                   in if jointCreated
                      then
                        let hb = \<lparr>block = Some i, joint = Some (nextJoint s)\<rparr>
                        in Inr (True,
                             s\<lparr>robot := r\<lparr>mHeldBlocks := mHeldBlocks r @ [hb]\<rparr>,
                               blocks := (blocks s)[i := blk1\<lparr>held := True\<rparr>],
                               fixedJoints := fixedJoints s @ [(nextJoint s, i)],
                               nextJoint := Suc (nextJoint s)\<rparr>)
                      else Inr (False, s\<lparr>blocks := (blocks s)[i := blk1]\<rparr>)
        | _ \<Rightarrow> Inr (False, s))"

definition release_joint :: "nat option \<Rightarrow> (nat \<times> nat) list \<Rightarrow> (nat \<times> nat) list" where
  \<comment> \<open>\<open>if (hb.joint) hb.joint->release();\<close>\<close>
  "release_joint j js = (case j of None \<Rightarrow> js | Some h \<Rightarrow> filter (\<lambda>e. fst e \<noteq> h) js)"

definition Outtake :: "Simulation \<Rightarrow> fault + Simulation" where
  "Outtake s =
     (let r = robot s in
      if mHeldBlocks r = [] then Inr s
      else
        let hb = last (mHeldBlocks r);
            s1 = s\<lparr>robot := r\<lparr>mHeldBlocks := butlast (mHeldBlocks r)\<rparr>\<rparr>
        in case block hb of
             None \<Rightarrow> Inr s1
           | Some i \<Rightarrow>
               if i \<ge> length (blocks s) then Inl InvalidReference
               else
                 case body (blocks s ! i) of
                   None \<Rightarrow> Inr s1
                 | Some b \<Rightarrow>
                     (case mChassis r of
                        None \<Rightarrow> Inl NullDereference
                      | Some chassis \<Rightarrow>
                          let pose = globalPose chassis;
                              forward = rotate (pose_q pose) (PxVec3 0 0 1);
                              eject0 = vec_add (pose_p pose)
                                         (vec_scale forward
                                            (fadd (fdiv ROBOT_LENGTH 2) (round32 (15 / 100))));
                              ejectPos = PxVec3 (vec_x eject0) (vec_y (pose_p pose)) (vec_z eject0);
                              b1 = b\<lparr>globalPose := PxTransform ejectPos (pose_q pose),
                                     linearVelocity := vec_zero, angularVelocity := vec_zero\<rparr>;
                              b2 = set_first_shape_filter
                                     (PxFilterData_default
                                        \<lparr>word0 := eBLOCK,
                                         word1 := eGROUND OR eCHASSIS OR eOBSTACLE OR eBLOCK OR eWHEEL\<rparr>)
                                     b1;
                              b3 = b2\<lparr>linearVelocity := vec_scale forward 1\<rparr>
                          in Inr (s1\<lparr>blocks := (blocks s)[i := (blocks s ! i)\<lparr>body := Some b3, held := False\<rparr>],
                                     fixedJoints := release_joint (joint hb) (fixedJoints s)\<rparr>)))"

section \<open>The frame loop (main.cpp) and the physics step (PhysicsWorld.cpp)\<close>

definition SpawnBlock :: "bool \<Rightarrow> BlockColor \<Rightarrow> PxVec3 \<Rightarrow> fault + GameBlock" where
  \<comment> \<open>\<open>created\<close>: whether \<open>createRigidDynamic\<close> returned an actor; the source dereferences
      the result unchecked\<close>
  "SpawnBlock created c position =
     (if \<not> created then Inl NullDereference
      else
        let radius = round32 (7 / 100);
            b0 = createRigidDynamic (transform_of_pos position);
            b1 = (attachShape (createShape (PxSphereGeometry radius)) b0)\<lparr>density := 1\<rparr>;
            b2 = b1\<lparr>linearDamping := 2, angularDamping := 1\<rparr>;
            b3 = SetActorFilter b2 eBLOCK (eGROUND OR eCHASSIS OR eWHEEL OR eOBSTACLE OR eBLOCK)
        in Inr \<lparr>body = Some b3, color = c, held = False\<rparr>)"

definition spawn_key :: "bool \<Rightarrow> BlockColor \<Rightarrow> Simulation \<Rightarrow> fault + Simulation" where
  \<comment> \<open>a fresh press of R or B: a block appears 0.3 above the front position\<close>
  "spawn_key created c s =
     (let front = GetFrontPosition (robot s);
          spawnPos = PxVec3 (vec_x front) (fadd (vec_y front) (round32 (3 / 10))) (vec_z front)
      in case SpawnBlock created c spawnPos of
           Inl e \<Rightarrow> Inl e
         | Inr blk \<Rightarrow> Inr (s\<lparr>blocks := blocks s @ [blk]\<rparr>))"

fun nearest_loop ::
  "PxVec3 \<Rightarrow> GameBlock list \<Rightarrow> nat \<Rightarrow> real \<times> nat option \<Rightarrow> real \<times> nat option" where
  \<comment> \<open>the range-for over \<open>blocks\<close>; \<open>i\<close> is the position of the head of the remaining list\<close>
  "nearest_loop frontPos [] i best = best"
| "nearest_loop frontPos (blk # rest) i (bestDist, bestBlock) =
     (case body blk of
        None \<Rightarrow> nearest_loop frontPos rest (Suc i) (bestDist, bestBlock)
      | Some b \<Rightarrow>
          if held blk then nearest_loop frontPos rest (Suc i) (bestDist, bestBlock)
          else
            let dist = magnitude (vec_sub frontPos (pose_p (globalPose b)))
            in if dist < bestDist then nearest_loop frontPos rest (Suc i) (dist, Some i)
               else nearest_loop frontPos rest (Suc i) (bestDist, bestBlock))"

definition intake_key :: "bool \<Rightarrow> bool \<Rightarrow> bool \<Rightarrow> Simulation \<Rightarrow> fault + Simulation" where
  "intake_key fPressed fWasPressed jointCreated s =
     (if fPressed \<and> \<not> fWasPressed \<and> \<not> IsIntakeFull (robot s)
      then
        let frontPos = GetFrontPosition (robot s);
            (bestDist, bestBlock) = nearest_loop frontPos (blocks s) 0 (999, None)
        in case bestBlock of
             None \<Rightarrow> Inr s
           | Some i \<Rightarrow>
               (case TryIntake i jointCreated s of
                  Inl e \<Rightarrow> Inl e
                | Inr (ok, s') \<Rightarrow> Inr s')
      else Inr s)"

text \<open>
  \<open>PhysicsWorld::Update\<close> hands the scene to the engine and waits for the result.  What the
  repository reads back from the engine afterwards is the pose and the velocities of the
  dynamic actors; the step itself is the engine's business, so it is a parameter: a function
  that, from the step length and the simulation, gives each actor its new pose and
  velocities.  Filter data, held flags and joint handles are not the engine's to change.
\<close>

datatype PxActorRef = ChassisActor | WheelActor nat | BlockActor nat

record Kinematics =
  kinPose :: PxTransform
  kinLinear :: PxVec3
  kinAngular :: PxVec3

type_synonym engine = "real \<Rightarrow> Simulation \<Rightarrow> PxActorRef \<Rightarrow> Kinematics"

definition set_kinematics :: "Kinematics \<Rightarrow> PxRigidDynamic \<Rightarrow> PxRigidDynamic" where
  "set_kinematics k a =
     a\<lparr>globalPose := kinPose k, linearVelocity := kinLinear k, angularVelocity := kinAngular k\<rparr>"

definition simulate :: "(PxActorRef \<Rightarrow> Kinematics) \<Rightarrow> Simulation \<Rightarrow> Simulation" where
  "simulate res s =
     s\<lparr>robot := (robot s)
          \<lparr>mChassis := map_option (set_kinematics (res ChassisActor)) (mChassis (robot s)),
           mWheels := map (\<lambda>(i, w). set_kinematics (res (WheelActor i)) w)
                          (enumerate 0 (mWheels (robot s)))\<rparr>,
       blocks := map (\<lambda>(i, blk). blk\<lparr>body := map_option (set_kinematics (res (BlockActor i))) (body blk)\<rparr>)
                     (enumerate 0 (blocks s))\<rparr>"

definition PhysicsWorld_Update :: "engine \<Rightarrow> real \<Rightarrow> Simulation \<Rightarrow> Simulation" where
  "PhysicsWorld_Update eng deltaTime s =
     (if mScene s then simulate (eng deltaTime s) s else s)"

definition physicsTimestep :: real where
  \<comment> \<open>\<open>const float physicsTimestep = 1.0f / 60.0f\<close>\<close>
  "physicsTimestep = fdiv 1 60"

datatype call = Robot_Update_call real | PhysicsWorld_Update_call real

text \<open>
  The drain loop of a frame, entered after \<open>physicsAccumulator += dt\<close>.  Each turn subtracts
  the fixed step in binary32.  For a large accumulator the subtraction can round back to the
  accumulator itself, so the loop is a partial function; the result is \<open>Some\<close> of the
  accumulator, the simulation and the calls made, in order, when the loop ends.
\<close>

partial_function (option) fixed_step_drain ::
  "engine \<Rightarrow> real \<Rightarrow> Simulation \<Rightarrow> call list \<Rightarrow> (real \<times> Simulation \<times> call list) option" where
  "fixed_step_drain eng physicsAccumulator s calls =
     (if physicsAccumulator \<ge> physicsTimestep
      then fixed_step_drain eng (fsub physicsAccumulator physicsTimestep)
             (PhysicsWorld_Update eng physicsTimestep
                (s\<lparr>robot := Robot_Update physicsTimestep (robot s)\<rparr>))
             (calls @ [Robot_Update_call physicsTimestep, PhysicsWorld_Update_call physicsTimestep])
      else Some (physicsAccumulator, s, calls))"

subsection \<open>Sessions\<close>

text \<open>
  A session is the setup of \<open>main\<close> followed by any sequence of the calls the frame loop
  makes.  Each call that consults the engine for an allocation carries the outcome.
\<close>

definition main_setup :: "bool \<Rightarrow> fault + Simulation" where
  \<comment> \<open>the world is initialised, the robot is created at \<open>(0, 0.5, 0)\<close>, no block exists\<close>
  "main_setup chassisCreated =
     (case Robot_Initialize chassisCreated (PxVec3 0 (1 / 2) 0) Robot_ctor of
        Inl e \<Rightarrow> Inl e
      | Inr r \<Rightarrow> Inr \<lparr>robot = r, blocks = [], mScene = True, fixedJoints = [], nextJoint = 0\<rparr>)"

datatype event =
    SetDriveInput_ev real real
  | Spawn_ev bool BlockColor
  | TryIntake_ev nat bool
  | IntakeKey_ev bool
  | Outtake_ev
  | Robot_Update_ev real
  | PhysicsWorld_Update_ev real

fun step :: "engine \<Rightarrow> event \<Rightarrow> Simulation \<Rightarrow> fault + Simulation" where
  "step eng (SetDriveInput_ev l r) s = Inr (s\<lparr>robot := SetDriveInput l r (robot s)\<rparr>)"
| "step eng (Spawn_ev created c) s = spawn_key created c s"
| "step eng (TryIntake_ev i jointCreated) s =
     (case TryIntake i jointCreated s of Inl e \<Rightarrow> Inl e | Inr (ok, s') \<Rightarrow> Inr s')"
| "step eng (IntakeKey_ev jointCreated) s = intake_key True False jointCreated s"
| "step eng Outtake_ev s = Outtake s"
| "step eng (Robot_Update_ev dt) s = Inr (s\<lparr>robot := Robot_Update dt (robot s)\<rparr>)"
| "step eng (PhysicsWorld_Update_ev dt) s = Inr (PhysicsWorld_Update eng dt s)"

fun run :: "engine \<Rightarrow> event list \<Rightarrow> Simulation \<Rightarrow> fault + Simulation" where
  "run eng [] s = Inr s"
| "run eng (e # es) s = (case step eng e s of Inl f \<Rightarrow> Inl f | Inr s' \<Rightarrow> run eng es s')"

definition session :: "engine \<Rightarrow> bool \<Rightarrow> event list \<Rightarrow> fault + Simulation" where
  "session eng chassisCreated evs =
     (case main_setup chassisCreated of Inl f \<Rightarrow> Inl f | Inr s \<Rightarrow> run eng evs s)"

section \<open>Notions used in the statements and proofs\<close>

text \<open>
  The number of records of the held sequence that refer to block \<open>i\<close>.
\<close>

definition held_refs :: "Simulation \<Rightarrow> nat \<Rightarrow> nat" where
  "held_refs s i = length (filter (\<lambda>hb. block hb = Some i) (mHeldBlocks (robot s)))"

text \<open>
  Three invariants of every state a session reaches.  \<open>held_ok\<close>: each record refers to
  a block of the list that has a body and whose held flag is set, no two records refer to
  the same block, each block whose flag is set has a record, at most \<open>MAX_HELD_BLOCKS\<close>
  records exist, and records exist only when there is a chassis.  \<open>joints_ok\<close>: the records
  are, in order, exactly the live fixed joints, whose handles are distinct and already
  handed out.  \<open>shapes_ok\<close>: the body of a block has exactly one shape, and while the block
  is held its filter data is all zero.
\<close>

definition held_ok :: "Simulation \<Rightarrow> bool" where
  "held_ok s \<longleftrightarrow>
     (\<forall>hb \<in> set (mHeldBlocks (robot s)).
        \<exists>i. block hb = Some i \<and> i < length (blocks s) \<and> held (blocks s ! i)
             \<and> body (blocks s ! i) \<noteq> None)
     \<and> distinct (map block (mHeldBlocks (robot s)))
     \<and> (\<forall>i < length (blocks s). held (blocks s ! i) \<longrightarrow> Some i \<in> block ` set (mHeldBlocks (robot s)))
     \<and> length (mHeldBlocks (robot s)) \<le> MAX_HELD_BLOCKS
     \<and> (mHeldBlocks (robot s) \<noteq> [] \<longrightarrow> mChassis (robot s) \<noteq> None)"

definition joints_ok :: "Simulation \<Rightarrow> bool" where
  "joints_ok s \<longleftrightarrow>
     mHeldBlocks (robot s) = map (\<lambda>(j, i). \<lparr>block = Some i, joint = Some j\<rparr>) (fixedJoints s)
     \<and> distinct (map fst (fixedJoints s))
     \<and> (\<forall>e \<in> set (fixedJoints s). fst e < nextJoint s)"

definition shapes_ok :: "Simulation \<Rightarrow> bool" where
  "shapes_ok s \<longleftrightarrow>
     (\<forall>i < length (blocks s). \<forall>b. body (blocks s ! i) = Some b \<longrightarrow>
        (\<exists>sh. shapes b = [sh]
           \<and> (held (blocks s ! i) \<longrightarrow> simulationFilterData sh = PxFilterData_default)))"

text \<open>
  The three results a call of \<open>TryIntake\<close> or \<open>Outtake\<close> can have besides leaving the
  simulation alone, named so that the lemmas about them can be stated: the body of a block
  after the writes of \<open>TryIntake\<close> (\<open>intake_body\<close>) and of \<open>Outtake\<close> (\<open>eject_body\<close>),
  the simulation after a successful intake (\<open>attach\<close>), after an intake whose joint
  creation failed (\<open>half_attach\<close>) and after an outtake (\<open>eject\<close>).  \<open>can_intake\<close> collects
  the tests a block passes before \<open>TryIntake\<close> writes anything.
\<close>

definition intake_body :: "PxRigidDynamic \<Rightarrow> PxRigidDynamic \<Rightarrow> PxRigidDynamic" where
  "intake_body chassis b =
     set_first_shape_filter PxFilterData_default
       (b\<lparr>globalPose := PxTransform (transform_point (globalPose chassis) (PxVec3 0 0 0))
                                    (pose_q (globalPose chassis)),
          linearVelocity := vec_zero, angularVelocity := vec_zero\<rparr>)"

definition attach :: "nat \<Rightarrow> PxRigidDynamic \<Rightarrow> PxRigidDynamic \<Rightarrow> Simulation \<Rightarrow> Simulation" where
  "attach i ch b s =
     s\<lparr>robot := (robot s)\<lparr>mHeldBlocks := mHeldBlocks (robot s) @ [\<lparr>block = Some i, joint = Some (nextJoint s)\<rparr>]\<rparr>,
       blocks := (blocks s)[i := (blocks s ! i)\<lparr>body := Some (intake_body ch b), held := True\<rparr>],
       fixedJoints := fixedJoints s @ [(nextJoint s, i)],
       nextJoint := Suc (nextJoint s)\<rparr>"

definition half_attach :: "nat \<Rightarrow> PxRigidDynamic \<Rightarrow> PxRigidDynamic \<Rightarrow> Simulation \<Rightarrow> Simulation" where
  "half_attach i ch b s = s\<lparr>blocks := (blocks s)[i := (blocks s ! i)\<lparr>body := Some (intake_body ch b)\<rparr>]\<rparr>"

definition can_intake :: "Simulation \<Rightarrow> nat \<Rightarrow> PxRigidDynamic \<Rightarrow> PxRigidDynamic \<Rightarrow> bool" where
  "can_intake s i ch b \<longleftrightarrow>
     mChassis (robot s) = Some ch \<and> body (blocks s ! i) = Some b \<and> \<not> held (blocks s ! i)
     \<and> length (mHeldBlocks (robot s)) < MAX_HELD_BLOCKS
     \<and> \<not> magnitude (vec_sub (GetFrontPosition (robot s)) (pose_p (globalPose b))) > INTAKE_RANGE"

definition eject_body :: "PxRigidDynamic \<Rightarrow> PxRigidDynamic \<Rightarrow> PxRigidDynamic" where
  "eject_body chassis b =
     (let pose = globalPose chassis;
          forward = rotate (pose_q pose) (PxVec3 0 0 1);
          eject0 = vec_add (pose_p pose)
                     (vec_scale forward (fadd (fdiv ROBOT_LENGTH 2) (round32 (15 / 100))));
          ejectPos = PxVec3 (vec_x eject0) (vec_y (pose_p pose)) (vec_z eject0)
      in (set_first_shape_filter
            (PxFilterData_default
               \<lparr>word0 := eBLOCK, word1 := eGROUND OR eCHASSIS OR eOBSTACLE OR eBLOCK OR eWHEEL\<rparr>)
            (b\<lparr>globalPose := PxTransform ejectPos (pose_q pose),
               linearVelocity := vec_zero, angularVelocity := vec_zero\<rparr>))
         \<lparr>linearVelocity := vec_scale forward 1\<rparr>)"

definition eject :: "nat \<Rightarrow> nat option \<Rightarrow> PxRigidDynamic \<Rightarrow> PxRigidDynamic \<Rightarrow> Simulation \<Rightarrow> Simulation" where
  "eject i j ch b s =
     s\<lparr>robot := (robot s)\<lparr>mHeldBlocks := butlast (mHeldBlocks (robot s))\<rparr>,
       blocks := (blocks s)[i := (blocks s ! i)\<lparr>body := Some (eject_body ch b), held := False\<rparr>],
       fixedJoints := release_joint j (fixedJoints s)\<rparr>"

definition masks_accept :: "PxFilterData \<Rightarrow> PxFilterData \<Rightarrow> bool" where
  \<comment> \<open>each of the two shapes accepts the category of the other\<close>
  "masks_accept f0 f1 \<longleftrightarrow> word0 f0 AND word1 f1 \<noteq> 0 \<and> word0 f1 AND word1 f0 \<noteq> 0"

definition session_inv :: "Simulation \<Rightarrow> bool" where
  "session_inv s \<longleftrightarrow> held_ok s \<and> joints_ok s \<and> shapes_ok s"

definition free_dist :: "PxVec3 \<Rightarrow> GameBlock \<Rightarrow> real option" where
  \<comment> \<open>the distance from the front position to a block that the intake handler considers
      (it has a body and is not held); \<open>None\<close> for a block the handler skips\<close>
  "free_dist frontPos blk =
     (case body blk of
        None \<Rightarrow> None
      | Some b \<Rightarrow> if held blk then None
                  else Some (magnitude (vec_sub frontPos (pose_p (globalPose b)))))"

definition nearest_free :: "Simulation \<Rightarrow> nat option" where
  \<comment> \<open>the block the intake handler ends its search with\<close>
  "nearest_free s = snd (nearest_loop (GetFrontPosition (robot s)) (blocks s) 0 (999, None))"

definition demo_engine :: engine where
  \<comment> \<open>an engine for closed examples: the chassis rests at its start pose, the wheels at the
      origin, and block \<open>i\<close> rests on the robot's axis at \<open>z = (i + 1) / 2\<close>\<close>
  "demo_engine dt s a =
     (case a of
        ChassisActor \<Rightarrow> \<lparr>kinPose = transform_of_pos (PxVec3 0 (1 / 2) 0),
                          kinLinear = vec_zero, kinAngular = vec_zero\<rparr>
      | WheelActor i \<Rightarrow> \<lparr>kinPose = transform_identity, kinLinear = vec_zero, kinAngular = vec_zero\<rparr>
      | BlockActor i \<Rightarrow> \<lparr>kinPose = transform_of_pos (PxVec3 0 (1 / 2) ((real i + 1) / 2)),
                          kinLinear = vec_zero, kinAngular = vec_zero\<rparr>)"

text \<open>
  The distance of the specification: the Euclidean distance of two points, in exact
  arithmetic.  \<open>magnitude (vec_sub a b)\<close> is what the code computes in its place.
\<close>

definition euclidean :: "PxVec3 \<Rightarrow> PxVec3 \<Rightarrow> real" where
  "euclidean a b =
     sqrt ((vec_x a - vec_x b) * (vec_x a - vec_x b) + (vec_y a - vec_y b) * (vec_y a - vec_y b)
           + (vec_z a - vec_z b) * (vec_z a - vec_z b))"

definition boundary_engine :: engine where
  \<comment> \<open>an engine that leaves the chassis at its start pose and puts two blocks at the height
      of the front position, both a little farther than 0.35 from it, block 1 nearer than
      block 0; every coordinate is a binary32 number\<close>
  "boundary_engine dt s a =
     (case a of
        ChassisActor \<Rightarrow> \<lparr>kinPose = transform_of_pos (PxVec3 0 (1 / 2) 0),
                          kinLinear = vec_zero, kinAngular = vec_zero\<rparr>
      | WheelActor i \<Rightarrow> \<lparr>kinPose = transform_identity, kinLinear = vec_zero, kinAngular = vec_zero\<rparr>
      | BlockActor i \<Rightarrow>
          \<lparr>kinPose = transform_of_pos
               (if i = 0 then PxVec3 (10311357 / 2 ^ 26) (1 / 2) (- (12008449 / 2 ^ 27))
                else PxVec3 (11587089 / 2 ^ 25) (1 / 2) (11272163 / 2 ^ 26)),
            kinLinear = vec_zero, kinAngular = vec_zero\<rparr>)"

definition block_row :: PxFilterData where
  \<comment> \<open>the filter data of a free block: category \<open>eBLOCK\<close>, accepting ground, chassis,
      wheels, obstacles and other blocks\<close>
  "block_row = \<lparr>word0 = eBLOCK, word1 = eGROUND OR eCHASSIS OR eWHEEL OR eOBSTACLE OR eBLOCK,
                 word2 = 0, word3 = 0\<rparr>"

section \<open>Lemmas\<close>

subsection \<open>Binary32 rounding\<close>

lemma rne_bracket:
  assumes "of_int n - 1 / 2 < t" and "t < of_int n + 1 / 2"
  shows "rne t = n"
proof (cases "of_int n \<le> t")
  case True
  then have "\<lfloor>t\<rfloor> = n" using assms by linarith
  then show ?thesis using assms by (simp add: rne_def Let_def)
next
  case False
  then have "\<lfloor>t\<rfloor> = n - 1" using assms by linarith
  then show ?thesis using assms False by (simp add: rne_def Let_def)
qed

lemma powi_le_iff:
  fixes x :: real
  assumes "2 powi e \<le> x" and "x < 2 powi (e + 1)"
  shows "(2 powi k \<le> x) = (k \<le> e)"
proof
  assume k: "2 powi k \<le> x"
  show "k \<le> e"
  proof (rule ccontr)
    assume "\<not> k \<le> e"
    then have "e + 1 \<le> k" by simp
    then have "(2::real) powi (e + 1) \<le> 2 powi k" by (rule power_int_increasing) simp
    then show False using k assms(2) by linarith
  qed
next
  assume "k \<le> e"
  then have "(2::real) powi k \<le> 2 powi e" by (rule power_int_increasing) simp
  then show "2 powi k \<le> x" using assms(1) by linarith
qed

lemma binade_eq:
  assumes "- 126 \<le> e" and "e \<le> 127" and "2 powi e \<le> \<bar>x\<bar>" and "\<bar>x\<bar> < 2 powi (e + 1)"
  shows "binade x = e"
proof -
  define f where "f = (\<lambda>w lo :: int. if lo + w \<le> e then lo + w else lo)"
  have b: "binade x = fold f [128, 64, 32, 16, 8, 4, 2, 1] (- 126)"
    unfolding binade_def f_def powi_le_iff[OF assms(3,4)] ..
  have s: "f w lo \<le> e \<and> e < f w lo + w" if "lo \<le> e" "e < lo + 2 * w" for w lo
    using that by (simp add: f_def)
  have 0: "(- 126 :: int) \<le> e \<and> e < - 126 + 2 * 128" using assms(1,2) by simp
  have 1: "f 128 (- 126) \<le> e \<and> e < f 128 (- 126) + 2 * 64" using s[of "- 126" 128] 0 by simp
  have 2: "f 64 (f 128 (- 126)) \<le> e \<and> e < f 64 (f 128 (- 126)) + 2 * 32"
    using s[of _ 64] 1 by simp
  have 3: "f 32 (f 64 (f 128 (- 126))) \<le> e \<and> e < f 32 (f 64 (f 128 (- 126))) + 2 * 16"
    using s[of _ 32] 2 by simp
  have 4: "f 16 (f 32 (f 64 (f 128 (- 126)))) \<le> e \<and> e < f 16 (f 32 (f 64 (f 128 (- 126)))) + 2 * 8"
    using s[of _ 16] 3 by simp
  have 5: "f 8 (f 16 (f 32 (f 64 (f 128 (- 126))))) \<le> e
         \<and> e < f 8 (f 16 (f 32 (f 64 (f 128 (- 126))))) + 2 * 4"
    using s[of _ 8] 4 by simp
  have 6: "f 4 (f 8 (f 16 (f 32 (f 64 (f 128 (- 126)))))) \<le> e
         \<and> e < f 4 (f 8 (f 16 (f 32 (f 64 (f 128 (- 126)))))) + 2 * 2"
    using s[of _ 4] 5 by simp
  have 7: "f 2 (f 4 (f 8 (f 16 (f 32 (f 64 (f 128 (- 126))))))) \<le> e
         \<and> e < f 2 (f 4 (f 8 (f 16 (f 32 (f 64 (f 128 (- 126))))))) + 2 * 1"
    using s[of _ 2] 6 by simp
  have 8: "f 1 (f 2 (f 4 (f 8 (f 16 (f 32 (f 64 (f 128 (- 126)))))))) \<le> e
         \<and> e < f 1 (f 2 (f 4 (f 8 (f 16 (f 32 (f 64 (f 128 (- 126)))))))) + 1"
    using s[of _ 1] 7 by simp
  then show ?thesis unfolding b by simp
qed

lemma round32_eq:
  assumes "- 126 \<le> e" and "e \<le> 127" and "2 powi e \<le> \<bar>x\<bar>" and "\<bar>x\<bar> < 2 powi (e + 1)"
    and "(of_int n - 1 / 2) * 2 powi (e - 23) < x" and "x < (of_int n + 1 / 2) * 2 powi (e - 23)"
  shows "round32 x = of_int n * 2 powi (e - 23)"
proof -
  have q: "(0::real) < 2 powi (e - 23)" by simp
  have "rne (x / 2 powi (e - 23)) = n"
    using assms(5,6) q by (intro rne_bracket) (simp_all add: field_simps)
  then show ?thesis
    by (simp add: round32_def Let_def binade_eq[OF assms(1-4)])
qed

lemma fsqrt_eq:
  assumes "- 126 \<le> e" and "e \<le> 127" and "0 < n"
    and "2 powi e * 2 powi e \<le> x" and "x < 2 powi (e + 1) * 2 powi (e + 1)"
    and "((of_int n - 1 / 2) * 2 powi (e - 23)) * ((of_int n - 1 / 2) * 2 powi (e - 23)) < x"
    and "x < ((of_int n + 1 / 2) * 2 powi (e - 23)) * ((of_int n + 1 / 2) * 2 powi (e - 23))"
  shows "fsqrt x = of_int n * 2 powi (e - 23)"
proof -
  have "(0::real) \<le> 2 powi e * 2 powi e" by simp
  then have x: "0 \<le> x" using assms(4) by (rule order_trans)
  have 1: "2 powi e \<le> \<bar>sqrt x\<bar>"
    using assms(4) x by (simp add: real_le_rsqrt power2_eq_square)
  have 2: "\<bar>sqrt x\<bar> < 2 powi (e + 1)"
    using assms(5) x by (simp add: real_less_lsqrt power2_eq_square)
  have 3: "(of_int n - 1 / 2) * 2 powi (e - 23) < sqrt x"
    using assms(6) by (intro real_less_rsqrt) (simp add: power2_eq_square)
  have "(0::real) \<le> (of_int n + 1 / 2) * 2 powi (e - 23)" using assms(3) by simp
  then have 4: "sqrt x < (of_int n + 1 / 2) * 2 powi (e - 23)"
    using assms(7) by (intro real_less_lsqrt) (simp_all add: power2_eq_square)
  show ?thesis unfolding fsqrt_def by (rule round32_eq[OF assms(1,2) 1 2 3 4])
qed

text \<open>
  The square roots that the closed examples below need, each settled by squaring the two
  neighbours of the result.
\<close>

lemma fsqrt_spawn: "fsqrt (3019899 / 33554432) = 5033165 / 16777216"
  using fsqrt_eq[of "- 2" 10066330 "3019899 / 33554432"] by simp

lemma fsqrt_near: "fsqrt (1268777 / 16777216) = 9227469 / 33554432"
  using fsqrt_eq[of "- 2" 9227469 "1268777 / 16777216"] by simp

lemma fsqrt_far: "fsqrt (10076815 / 16777216) = 6501171 / 8388608"
  using fsqrt_eq[of "- 1" 13002342 "10076815 / 16777216"] by simp

lemma fsqrt_boundary: "fsqrt (2055209 / 16777216) = 11744051 / 33554432"
  using fsqrt_eq[of "- 2" 11744051 "2055209 / 16777216"] by simp

subsection \<open>The outcomes of TryIntake and Outtake\<close>

lemma TryIntake_can:
  assumes "i < length (blocks s)" "can_intake s i ch b"
  shows "TryIntake i jc s = Inr (if jc then (True, attach i ch b s) else (False, half_attach i ch b s))"
  using assms
  by (simp add: TryIntake_def can_intake_def Let_def IsIntakeFull_def intake_body_def
      PxFilterData_default_def attach_def half_attach_def)

lemma TryIntake_cannot:
  assumes "i < length (blocks s)" "\<And>ch b. \<not> can_intake s i ch b"
  shows "TryIntake i jc s = Inr (False, s)"
proof (cases "mChassis (robot s)")
  case None
  then show ?thesis using assms(1) by (simp add: TryIntake_def Let_def)
next
  case (Some ch)
  show ?thesis
  proof (cases "body (blocks s ! i)")
    case None
    then show ?thesis using assms(1) Some by (simp add: TryIntake_def Let_def)
  next
    case b: (Some b)
    have "\<not> can_intake s i ch b" by (rule assms(2))
    then show ?thesis using assms(1) Some b
      by (auto simp add: TryIntake_def can_intake_def Let_def IsIntakeFull_def not_le)
  qed
qed

lemma TryIntake_cases:
  assumes "TryIntake i jc s = Inr (ok, s')"
  obtains (unchanged) "i < length (blocks s)" "\<not> ok" "s' = s"
  | (failed) ch b where "i < length (blocks s)" "can_intake s i ch b" "\<not> jc" "\<not> ok" "s' = half_attach i ch b s"
  | (attached) ch b where "i < length (blocks s)" "can_intake s i ch b" "jc" "ok" "s' = attach i ch b s"
proof -
  have i: "i < length (blocks s)"
    using assms by (cases "i < length (blocks s)") (simp_all add: TryIntake_def)
  show thesis
  proof (cases "\<exists>ch b. can_intake s i ch b")
    case True
    then obtain ch b where c: "can_intake s i ch b" by blast
    from TryIntake_can[OF i c, of jc] assms
    show thesis using i c failed attached by (cases jc) simp_all
  next
    case False
    then have "TryIntake i jc s = Inr (False, s)" using i by (intro TryIntake_cannot) blast+
    then show thesis using assms i unchanged by simp
  qed
qed

lemma Outtake_empty: "mHeldBlocks (robot s) = [] \<Longrightarrow> Outtake s = Inr s"
  by (simp add: Outtake_def)

lemma Outtake_eject:
  assumes "mHeldBlocks (robot s) \<noteq> []" "block (last (mHeldBlocks (robot s))) = Some i"
    "i < length (blocks s)" "body (blocks s ! i) = Some b" "mChassis (robot s) = Some ch"
  shows "Outtake s = Inr (eject i (joint (last (mHeldBlocks (robot s)))) ch b s)"
  using assms by (simp add: Outtake_def Let_def eject_def eject_body_def)

subsection \<open>The held sequence\<close>

lemma held_ok_last:
  assumes "held_ok s" "mHeldBlocks (robot s) \<noteq> []"
  obtains i b ch where "block (last (mHeldBlocks (robot s))) = Some i" "i < length (blocks s)"
    "held (blocks s ! i)" "body (blocks s ! i) = Some b" "mChassis (robot s) = Some ch"
proof -
  have "last (mHeldBlocks (robot s)) \<in> set (mHeldBlocks (robot s))"
    using assms(2) by simp
  then obtain i where "block (last (mHeldBlocks (robot s))) = Some i" "i < length (blocks s)"
    "held (blocks s ! i)" "body (blocks s ! i) \<noteq> None"
    using assms(1) unfolding held_ok_def by blast
  moreover have "mChassis (robot s) \<noteq> None"
    using assms unfolding held_ok_def by blast
  ultimately show thesis using that by blast
qed

lemma held_ok_cong:
  assumes "held_ok s"
    "mHeldBlocks (robot s') = mHeldBlocks (robot s)"
    "(mChassis (robot s') = None) = (mChassis (robot s) = None)"
    "length (blocks s') = length (blocks s)"
    "\<And>k. k < length (blocks s) \<Longrightarrow> held (blocks s' ! k) = held (blocks s ! k)"
    "\<And>k. k < length (blocks s) \<Longrightarrow> (body (blocks s' ! k) = None) = (body (blocks s ! k) = None)"
  shows "held_ok s'"
proof -
  have 1: "\<forall>hb \<in> set (mHeldBlocks (robot s')).
        \<exists>i. block hb = Some i \<and> i < length (blocks s') \<and> held (blocks s' ! i)
             \<and> body (blocks s' ! i) \<noteq> None"
  proof
    fix hb assume "hb \<in> set (mHeldBlocks (robot s'))"
    then have "hb \<in> set (mHeldBlocks (robot s))" using assms(2) by simp
    then obtain k where k: "block hb = Some k" "k < length (blocks s)" "held (blocks s ! k)"
      "body (blocks s ! k) \<noteq> None"
      using assms(1) unfolding held_ok_def by blast
    then show "\<exists>i. block hb = Some i \<and> i < length (blocks s') \<and> held (blocks s' ! i)
             \<and> body (blocks s' ! i) \<noteq> None"
      using assms(4) assms(5)[of k] assms(6)[of k] by auto
  qed
  have 3: "\<forall>i < length (blocks s'). held (blocks s' ! i)
             \<longrightarrow> Some i \<in> block ` set (mHeldBlocks (robot s'))"
    using assms(1) assms(2) assms(4) assms(5) unfolding held_ok_def by simp
  show ?thesis
    unfolding held_ok_def using 1 3 assms(1,2,3) unfolding held_ok_def by simp
qed

lemma held_ok_half_attach:
  assumes "held_ok s" "i < length (blocks s)" "can_intake s i ch b"
  shows "held_ok (half_attach i ch b s)"
  using assms(1)
proof (rule held_ok_cong)
  fix k assume "k < length (blocks s)"
  then show "held (blocks (half_attach i ch b s) ! k) = held (blocks s ! k)"
    using assms(2) by (simp add: half_attach_def nth_list_update)
  show "(body (blocks (half_attach i ch b s) ! k) = None) = (body (blocks s ! k) = None)"
    using assms(2,3) \<open>k < length (blocks s)\<close>
    by (auto simp add: half_attach_def nth_list_update can_intake_def)
qed (simp_all add: half_attach_def)

lemma held_ok_attach:
  assumes h: "held_ok s" and i: "i < length (blocks s)" and c: "can_intake s i ch b"
  shows "held_ok (attach i ch b s)"
proof -
  let ?H = "mHeldBlocks (robot s)"
  have nh: "\<not> held (blocks s ! i)" and bd: "body (blocks s ! i) = Some b"
    and ch: "mChassis (robot s) = Some ch" and len: "length ?H < MAX_HELD_BLOCKS"
    using c by (simp_all add: can_intake_def)
  have notin: "Some i \<notin> block ` set ?H"
  proof
    assume "Some i \<in> block ` set ?H"
    then obtain hb where "hb \<in> set ?H" "block hb = Some i" by force
    then have "held (blocks s ! i)" using h unfolding held_ok_def by force
    then show False using nh by simp
  qed
  have 1: "\<forall>hb \<in> set (mHeldBlocks (robot (attach i ch b s))).
        \<exists>k. block hb = Some k \<and> k < length (blocks (attach i ch b s)) \<and> held (blocks (attach i ch b s) ! k)
             \<and> body (blocks (attach i ch b s) ! k) \<noteq> None"
  proof
    fix hb assume "hb \<in> set (mHeldBlocks (robot (attach i ch b s)))"
    then consider "hb \<in> set ?H" | "hb = \<lparr>block = Some i, joint = Some (nextJoint s)\<rparr>"
      by (auto simp: attach_def)
    then show "\<exists>k. block hb = Some k \<and> k < length (blocks (attach i ch b s)) \<and> held (blocks (attach i ch b s) ! k)
             \<and> body (blocks (attach i ch b s) ! k) \<noteq> None"
    proof cases
      case 1
      then obtain k where k: "block hb = Some k" "k < length (blocks s)" "held (blocks s ! k)"
        "body (blocks s ! k) \<noteq> None"
        using h unfolding held_ok_def by blast
      then have "k \<noteq> i" using nh by auto
      then show ?thesis using k by (simp add: attach_def)
    next
      case 2
      then show ?thesis using i by (simp add: attach_def)
    qed
  qed
  have 2: "distinct (map block (mHeldBlocks (robot (attach i ch b s))))"
    using h notin unfolding held_ok_def by (simp add: attach_def)
  have 3: "\<forall>k < length (blocks (attach i ch b s)). held (blocks (attach i ch b s) ! k)
             \<longrightarrow> Some k \<in> block ` set (mHeldBlocks (robot (attach i ch b s)))"
  proof (intro allI impI)
    fix k assume k: "k < length (blocks (attach i ch b s))" "held (blocks (attach i ch b s) ! k)"
    show "Some k \<in> block ` set (mHeldBlocks (robot (attach i ch b s)))"
    proof (cases "k = i")
      case True
      then show ?thesis by (simp add: attach_def)
    next
      case False
      then have "held (blocks s ! k)" "k < length (blocks s)" using k by (simp_all add: attach_def)
      then have "Some k \<in> block ` set ?H" using h unfolding held_ok_def by blast
      then show ?thesis by (auto simp: attach_def)
    qed
  qed
  have 4: "length (mHeldBlocks (robot (attach i ch b s))) \<le> MAX_HELD_BLOCKS"
    using len by (simp add: attach_def)
  have 5: "mChassis (robot (attach i ch b s)) \<noteq> None"
    using ch by (simp add: attach_def)
  show ?thesis unfolding held_ok_def using 1 2 3 4 5 by blast
qed

lemma held_ok_eject:
  assumes h: "held_ok s" and ne: "mHeldBlocks (robot s) \<noteq> []"
    and l: "block (last (mHeldBlocks (robot s))) = Some i" and i: "i < length (blocks s)"
  shows "held_ok (eject i j ch b s)"
proof -
  let ?H = "mHeldBlocks (robot s)"
  let ?s = "eject i j ch b s"
  have H: "?H = butlast ?H @ [last ?H]" using ne by simp
  have d: "distinct (map block ?H)" using h unfolding held_ok_def by blast
  have notin: "Some i \<notin> block ` set (butlast ?H)"
  proof -
    have "distinct (map block (butlast ?H) @ [block (last ?H)])"
      using d H by (metis list.simps(8,9) map_append)
    then show ?thesis using l by simp
  qed
  have 1: "\<forall>hb \<in> set (mHeldBlocks (robot ?s)).
        \<exists>k. block hb = Some k \<and> k < length (blocks ?s) \<and> held (blocks ?s ! k)
             \<and> body (blocks ?s ! k) \<noteq> None"
  proof
    fix hb assume a: "hb \<in> set (mHeldBlocks (robot ?s))"
    then have b: "hb \<in> set (butlast ?H)" by (simp add: eject_def)
    then have "hb \<in> set ?H" by (rule in_set_butlastD)
    then obtain k where k: "block hb = Some k" "k < length (blocks s)" "held (blocks s ! k)"
      "body (blocks s ! k) \<noteq> None"
      using h unfolding held_ok_def by blast
    have "k \<noteq> i" using notin b k(1) by force
    then show "\<exists>k. block hb = Some k \<and> k < length (blocks ?s) \<and> held (blocks ?s ! k)
             \<and> body (blocks ?s ! k) \<noteq> None"
      using k by (simp add: eject_def)
  qed
  have 2: "distinct (map block (mHeldBlocks (robot ?s)))"
    using d by (simp add: eject_def map_butlast distinct_butlast)
  have 3: "\<forall>k < length (blocks ?s). held (blocks ?s ! k)
             \<longrightarrow> Some k \<in> block ` set (mHeldBlocks (robot ?s))"
  proof (intro allI impI)
    fix k assume k: "k < length (blocks ?s)" "held (blocks ?s ! k)"
    then have ki: "k \<noteq> i" using i by (auto simp: eject_def)
    then have "held (blocks s ! k)" "k < length (blocks s)" using k by (simp_all add: eject_def)
    then have "Some k \<in> block ` set ?H" using h unfolding held_ok_def by blast
    then have "Some k \<in> block ` set (butlast ?H @ [last ?H])" using H by simp
    then have "Some k \<in> block ` set (butlast ?H)" using ki l by auto
    then show "Some k \<in> block ` set (mHeldBlocks (robot ?s))" by (simp add: eject_def)
  qed
  have 4: "length (mHeldBlocks (robot ?s)) \<le> MAX_HELD_BLOCKS"
    using h unfolding held_ok_def by (auto simp: eject_def)
  have 5: "mHeldBlocks (robot ?s) \<noteq> [] \<longrightarrow> mChassis (robot ?s) \<noteq> None"
    using h ne unfolding held_ok_def by (simp add: eject_def)
  show ?thesis unfolding held_ok_def using 1 2 3 4 5 by blast
qed

subsection \<open>The table of fixed joints\<close>

lemma filter_last_fst:
  assumes "distinct (map fst xs)" "xs \<noteq> []"
  shows "filter (\<lambda>e. fst e \<noteq> fst (last xs)) xs = butlast xs"
proof -
  obtain ys y where xs: "xs = ys @ [y]"
    using assms(2) by (metis append_butlast_last_id)
  have "fst y \<notin> fst ` set ys"
    using assms(1) xs by simp
  then have "\<forall>e \<in> set ys. fst e \<noteq> fst y"
    by (metis imageI)
  then have "filter (\<lambda>e. fst e \<noteq> fst y) ys = ys"
    by (simp add: filter_id_conv)
  then show ?thesis using xs by simp
qed

lemma joints_ok_cong:
  assumes "joints_ok s" "mHeldBlocks (robot s') = mHeldBlocks (robot s)"
    "fixedJoints s' = fixedJoints s" "nextJoint s' = nextJoint s"
  shows "joints_ok s'"
  using assms by (simp add: joints_ok_def)

lemma joints_ok_attach:
  assumes "joints_ok s"
  shows "joints_ok (attach i ch b s)"
  using assms by (auto simp: joints_ok_def attach_def less_Suc_eq)

lemma joints_ok_last:
  assumes "joints_ok s" "mHeldBlocks (robot s) \<noteq> []"
  shows "fixedJoints s \<noteq> []"
    and "joint (last (mHeldBlocks (robot s))) = Some (fst (last (fixedJoints s)))"
    and "block (last (mHeldBlocks (robot s))) = Some (snd (last (fixedJoints s)))"
proof -
  show ne: "fixedJoints s \<noteq> []" using assms by (auto simp: joints_ok_def)
  have "last (mHeldBlocks (robot s))
          = (\<lambda>(j, i). \<lparr>block = Some i, joint = Some j\<rparr>) (last (fixedJoints s))"
    using assms(1) ne by (simp add: joints_ok_def last_map)
  then show "joint (last (mHeldBlocks (robot s))) = Some (fst (last (fixedJoints s)))"
    and "block (last (mHeldBlocks (robot s))) = Some (snd (last (fixedJoints s)))"
    by (simp_all add: case_prod_beta)
qed

lemma joints_ok_eject:
  assumes j: "joints_ok s" and ne: "mHeldBlocks (robot s) \<noteq> []"
  shows "joints_ok (eject i (joint (last (mHeldBlocks (robot s)))) ch b s)"
proof -
  note l = joints_ok_last[OF j ne]
  have d: "distinct (map fst (fixedJoints s))" using j by (simp add: joints_ok_def)
  have r: "release_joint (joint (last (mHeldBlocks (robot s)))) (fixedJoints s) = butlast (fixedJoints s)"
    using filter_last_fst[OF d l(1)] by (simp add: release_joint_def l(2))
  have "butlast (mHeldBlocks (robot s))
          = map (\<lambda>(j, i). \<lparr>block = Some i, joint = Some j\<rparr>) (butlast (fixedJoints s))"
    using j by (simp add: joints_ok_def map_butlast)
  moreover have "distinct (map fst (butlast (fixedJoints s)))"
    using d by (simp add: map_butlast distinct_butlast)
  moreover have "\<forall>e \<in> set (butlast (fixedJoints s)). fst e < nextJoint s"
    using j by (auto simp: joints_ok_def dest: in_set_butlastD)
  ultimately show ?thesis
    by (simp add: joints_ok_def eject_def r)
qed

subsection \<open>Shapes and their filter data\<close>

lemma shapes_intake_body:
  "shapes b = [sh] \<Longrightarrow> shapes (intake_body ch b) = [sh\<lparr>simulationFilterData := PxFilterData_default\<rparr>]"
  by (simp add: intake_body_def set_first_shape_filter_def)

lemma shapes_eject_body:
  "shapes b = [sh] \<Longrightarrow> shapes (eject_body ch b) =
     [sh\<lparr>simulationFilterData := PxFilterData_default
           \<lparr>word0 := eBLOCK, word1 := eGROUND OR eCHASSIS OR eOBSTACLE OR eBLOCK OR eWHEEL\<rparr>\<rparr>]"
  by (simp add: eject_body_def set_first_shape_filter_def Let_def)

lemma shapes_ok_update:
  assumes "shapes_ok s" "i < length (blocks s)" "body (blocks s ! i) = Some b"
    "\<And>sh. shapes b = [sh] \<Longrightarrow> \<exists>sh'. shapes b' = [sh'] \<and> (h \<longrightarrow> simulationFilterData sh' = PxFilterData_default)"
    "blocks s' = (blocks s)[i := (blocks s ! i)\<lparr>body := Some b', held := h\<rparr>]"
  shows "shapes_ok s'"
  unfolding shapes_ok_def
proof (intro allI impI)
  fix k c assume k: "k < length (blocks s')" "body (blocks s' ! k) = Some c"
  show "\<exists>sh. shapes c = [sh] \<and> (held (blocks s' ! k) \<longrightarrow> simulationFilterData sh = PxFilterData_default)"
  proof (cases "k = i")
    case True
    obtain sh where "shapes b = [sh]" using assms(1,2,3) unfolding shapes_ok_def by blast
    from assms(4)[OF this] show ?thesis using k True assms(2,5) by simp
  next
    case False
    then show ?thesis using k assms(1,5) unfolding shapes_ok_def by simp
  qed
qed

lemma held_False_update:
  "\<not> held blk \<Longrightarrow> blk\<lparr>body := x, held := False\<rparr> = blk\<lparr>body := x\<rparr>"
  by (cases blk) simp

lemma shapes_ok_half_attach:
  assumes "shapes_ok s" "i < length (blocks s)" "can_intake s i ch b"
  shows "shapes_ok (half_attach i ch b s)"
proof (rule shapes_ok_update[OF assms(1,2), where b = b and b' = "intake_body ch b" and h = False])
  show "body (blocks s ! i) = Some b" using assms(3) by (simp add: can_intake_def)
  show "blocks (half_attach i ch b s) = (blocks s)[i := (blocks s ! i)\<lparr>body := Some (intake_body ch b), held := False\<rparr>]"
    using assms(3) by (simp add: half_attach_def can_intake_def held_False_update)
qed (simp add: shapes_intake_body)

lemma shapes_ok_attach:
  assumes "shapes_ok s" "i < length (blocks s)" "can_intake s i ch b"
  shows "shapes_ok (attach i ch b s)"
proof (rule shapes_ok_update[OF assms(1,2), where b = b and b' = "intake_body ch b" and h = True])
  show "body (blocks s ! i) = Some b" using assms(3) by (simp add: can_intake_def)
qed (simp_all add: shapes_intake_body attach_def)

lemma shapes_ok_eject:
  assumes "shapes_ok s" "i < length (blocks s)" "body (blocks s ! i) = Some b"
  shows "shapes_ok (eject i j ch b s)"
  by (rule shapes_ok_update[OF assms, where b' = "eject_body ch b" and h = False])
     (simp_all add: shapes_eject_body eject_def)

subsection \<open>The physics step, robot-only changes and spawning\<close>

lemma blocks_simulate_length [simp]: "length (blocks (simulate res s)) = length (blocks s)"
  by (simp add: simulate_def)

lemma blocks_simulate_nth:
  "k < length (blocks s) \<Longrightarrow>
     blocks (simulate res s) ! k
       = (blocks s ! k)\<lparr>body := map_option (set_kinematics (res (BlockActor k))) (body (blocks s ! k))\<rparr>"
  by (simp add: simulate_def nth_enumerate_eq)

lemma robot_simulate:
  "mHeldBlocks (robot (simulate res s)) = mHeldBlocks (robot s)"
  "mWheelJoints (robot (simulate res s)) = mWheelJoints (robot s)"
  "(mChassis (robot (simulate res s)) = None) = (mChassis (robot s) = None)"
  "fixedJoints (simulate res s) = fixedJoints s"
  "nextJoint (simulate res s) = nextJoint s"
  "mScene (simulate res s) = mScene s"
  by (simp_all add: simulate_def)

lemma held_ok_simulate: "held_ok s \<Longrightarrow> held_ok (simulate res s)"
  by (erule held_ok_cong) (simp_all add: robot_simulate blocks_simulate_nth)

lemma joints_ok_simulate: "joints_ok s \<Longrightarrow> joints_ok (simulate res s)"
  by (erule joints_ok_cong) (simp_all add: robot_simulate)

lemma shapes_ok_simulate:
  assumes "shapes_ok s"
  shows "shapes_ok (simulate res s)"
  unfolding shapes_ok_def
proof (intro allI impI)
  fix k c assume k: "k < length (blocks (simulate res s))" "body (blocks (simulate res s) ! k) = Some c"
  then obtain b where b: "body (blocks s ! k) = Some b" "c = set_kinematics (res (BlockActor k)) b"
    by (auto simp: blocks_simulate_nth)
  then obtain sh where "shapes b = [sh]" "held (blocks s ! k) \<longrightarrow> simulationFilterData sh = PxFilterData_default"
    using assms k(1) unfolding shapes_ok_def by fastforce
  then show "\<exists>sh. shapes c = [sh] \<and> (held (blocks (simulate res s) ! k) \<longrightarrow> simulationFilterData sh = PxFilterData_default)"
    using b k(1) by (simp add: blocks_simulate_nth set_kinematics_def)
qed

lemma inv_PhysicsWorld_Update: "session_inv s \<Longrightarrow> session_inv (PhysicsWorld_Update eng dt s)"
  by (simp add: session_inv_def PhysicsWorld_Update_def held_ok_simulate joints_ok_simulate shapes_ok_simulate)

lemma Robot_Update_fields:
  "mHeldBlocks (Robot_Update dt r) = mHeldBlocks r"
  "mChassis (Robot_Update dt r) = mChassis r"
  "mWheels (Robot_Update dt r) = mWheels r"
  "mThrottleInput (Robot_Update dt r) = mThrottleInput r"
  "mTurnInput (Robot_Update dt r) = mTurnInput r"
  by (simp_all add: Robot_Update_def Let_def)

lemma inv_robot_only:
  assumes "session_inv s" "mHeldBlocks r = mHeldBlocks (robot s)" "mChassis r = mChassis (robot s)"
  shows "session_inv (s\<lparr>robot := r\<rparr>)"
proof -
  have "held_ok s" "joints_ok s" using assms(1) by (simp_all add: session_inv_def)
  have "held_ok (s\<lparr>robot := r\<rparr>)"
    by (rule held_ok_cong[OF \<open>held_ok s\<close>]) (simp_all add: assms)
  moreover have "joints_ok (s\<lparr>robot := r\<rparr>)"
    by (rule joints_ok_cong[OF \<open>joints_ok s\<close>]) (simp_all add: assms)
  moreover have "shapes_ok (s\<lparr>robot := r\<rparr>)"
    using assms by (simp add: session_inv_def shapes_ok_def)
  ultimately show ?thesis by (simp add: session_inv_def)
qed

lemma SpawnBlock_Inr:
  assumes "SpawnBlock created c p = Inr blk"
  shows "created" "\<not> held blk" "color blk = c"
    "\<exists>b sh. body blk = Some b \<and> pose_p (globalPose b) = p \<and> shapes b = [sh]
        \<and> simulationFilterData sh = PxFilterData_default\<lparr>word0 := eBLOCK,
                   word1 := eGROUND OR eCHASSIS OR eWHEEL OR eOBSTACLE OR eBLOCK\<rparr>"
proof -
  show c: "created" using assms by (cases created) (simp_all add: SpawnBlock_def)
  have blk: "blk = \<lparr>body = Some (SetActorFilter
       (((attachShape (createShape (PxSphereGeometry (round32 (7 / 100)))) (createRigidDynamic (transform_of_pos p)))
            \<lparr>density := 1\<rparr>)\<lparr>linearDamping := 2, angularDamping := 1\<rparr>)
       eBLOCK (eGROUND OR eCHASSIS OR eWHEEL OR eOBSTACLE OR eBLOCK)), color = c, held = False\<rparr>"
    using assms c by (simp add: SpawnBlock_def Let_def)
  show "\<not> held blk" "color blk = c" by (simp_all add: blk)
  show "\<exists>b sh. body blk = Some b \<and> pose_p (globalPose b) = p \<and> shapes b = [sh]
        \<and> simulationFilterData sh = PxFilterData_default\<lparr>word0 := eBLOCK,
                   word1 := eGROUND OR eCHASSIS OR eWHEEL OR eOBSTACLE OR eBLOCK\<rparr>"
    by (simp add: blk createRigidDynamic_def attachShape_def createShape_def
      SetActorFilter_def transform_of_pos_def)
qed

lemma spawn_key_Inr:
  assumes "spawn_key created c s = Inr s'"
  obtains blk where "s' = s\<lparr>blocks := blocks s @ [blk]\<rparr>"
    "SpawnBlock created c
        (PxVec3 (vec_x (GetFrontPosition (robot s))) (fadd (vec_y (GetFrontPosition (robot s))) (round32 (3 / 10)))
                (vec_z (GetFrontPosition (robot s)))) = Inr blk"
proof (cases "SpawnBlock created c
        (PxVec3 (vec_x (GetFrontPosition (robot s))) (fadd (vec_y (GetFrontPosition (robot s))) (round32 (3 / 10)))
                (vec_z (GetFrontPosition (robot s))))")
  case (Inl a)
  then show ?thesis using assms by (simp add: spawn_key_def Let_def)
next
  case (Inr blk)
  then show ?thesis using assms that by (auto simp add: spawn_key_def Let_def)
qed

lemma inv_spawn_key:
  assumes "session_inv s" "spawn_key created c s = Inr s'"
  shows "session_inv s'"
proof -
  from spawn_key_Inr[OF assms(2)] obtain blk p where s': "s' = s\<lparr>blocks := blocks s @ [blk]\<rparr>"
    and blk: "SpawnBlock created c p = Inr blk"
    by blast
  from SpawnBlock_Inr[OF blk] obtain b sh where b: "\<not> held blk" "body blk = Some b" "shapes b = [sh]"
    by blast
  have h: "held_ok s" and j: "joints_ok s" and sh: "shapes_ok s" using assms(1) by (simp_all add: session_inv_def)
  have n: "\<And>k. k < length (blocks s) \<Longrightarrow> blocks s' ! k = blocks s ! k"
    and l: "blocks s' ! length (blocks s) = blk" and len: "length (blocks s') = Suc (length (blocks s))"
    and r: "robot s' = robot s"
    by (simp_all add: s' nth_append)
  have 1: "\<forall>hb \<in> set (mHeldBlocks (robot s')).
        \<exists>i. block hb = Some i \<and> i < length (blocks s') \<and> held (blocks s' ! i)
             \<and> body (blocks s' ! i) \<noteq> None"
  proof
    fix hb assume "hb \<in> set (mHeldBlocks (robot s'))"
    then obtain k where k: "block hb = Some k" "k < length (blocks s)" "held (blocks s ! k)"
      "body (blocks s ! k) \<noteq> None"
      using h r unfolding held_ok_def by force
    then show "\<exists>i. block hb = Some i \<and> i < length (blocks s') \<and> held (blocks s' ! i)
             \<and> body (blocks s' ! i) \<noteq> None"
      using n[of k] len by auto
  qed
  have 3: "\<forall>i < length (blocks s'). held (blocks s' ! i)
             \<longrightarrow> Some i \<in> block ` set (mHeldBlocks (robot s'))"
  proof (intro allI impI)
    fix i assume i: "i < length (blocks s')" "held (blocks s' ! i)"
    then have "i < length (blocks s)" using len l b(1) by (cases "i = length (blocks s)") auto
    then show "Some i \<in> block ` set (mHeldBlocks (robot s'))"
      using i n[of i] h r unfolding held_ok_def by simp
  qed
  have "held_ok s'"
    unfolding held_ok_def using 1 3 h r unfolding held_ok_def by simp
  moreover have "joints_ok s'"
    using j by (rule joints_ok_cong) (simp_all add: s')
  moreover have "shapes_ok s'"
    unfolding shapes_ok_def
  proof (intro allI impI)
    fix i c assume i: "i < length (blocks s')" "body (blocks s' ! i) = Some c"
    show "\<exists>sh. shapes c = [sh] \<and> (held (blocks s' ! i) \<longrightarrow> simulationFilterData sh = PxFilterData_default)"
    proof (cases "i = length (blocks s)")
      case True
      then show ?thesis using i l b by simp
    next
      case False
      then have "i < length (blocks s)" using i len by simp
      then show ?thesis using i n[of i] sh unfolding shapes_ok_def by simp
    qed
  qed
  ultimately show ?thesis by (simp add: session_inv_def)
qed

subsection \<open>Every call keeps the invariants\<close>

lemma inv_TryIntake:
  assumes "session_inv s" "TryIntake i jc s = Inr (ok, s')"
  shows "session_inv s'"
  using assms(2)
proof (cases rule: TryIntake_cases)
  case unchanged
  then show ?thesis using assms(1) by simp
next
  case (failed ch b)
  have "joints_ok s" using assms(1) by (simp add: session_inv_def)
  then have "joints_ok (half_attach i ch b s)"
    by (rule joints_ok_cong) (simp_all add: half_attach_def)
  then show ?thesis
    using assms(1) failed by (simp add: session_inv_def held_ok_half_attach shapes_ok_half_attach)
next
  case (attached ch b)
  then show ?thesis
    using assms(1) by (simp add: session_inv_def held_ok_attach shapes_ok_attach joints_ok_attach)
qed

lemma Outtake_inv_eject:
  assumes "session_inv s" "mHeldBlocks (robot s) \<noteq> []"
  obtains i b ch where "block (last (mHeldBlocks (robot s))) = Some i" "i < length (blocks s)"
    "held (blocks s ! i)" "body (blocks s ! i) = Some b" "mChassis (robot s) = Some ch"
    "Outtake s = Inr (eject i (joint (last (mHeldBlocks (robot s)))) ch b s)"
proof -
  have h: "held_ok s" using assms(1) by (simp add: session_inv_def)
  from held_ok_last[OF h assms(2)] obtain i b ch where
    *: "block (last (mHeldBlocks (robot s))) = Some i" "i < length (blocks s)"
    "held (blocks s ! i)" "body (blocks s ! i) = Some b" "mChassis (robot s) = Some ch"
    by blast
  from Outtake_eject[OF assms(2) *(1,2,4,5)] * show thesis using that by blast
qed

lemma inv_Outtake:
  assumes "session_inv s"
  shows "\<exists>s'. Outtake s = Inr s' \<and> session_inv s'"
proof (cases "mHeldBlocks (robot s) = []")
  case True
  then show ?thesis using assms by (simp add: Outtake_empty)
next
  case False
  from Outtake_inv_eject[OF assms False] obtain i b ch where
    *: "block (last (mHeldBlocks (robot s))) = Some i" "i < length (blocks s)"
    "body (blocks s ! i) = Some b"
    "Outtake s = Inr (eject i (joint (last (mHeldBlocks (robot s)))) ch b s)"
    by blast
  have "held_ok s" "joints_ok s" "shapes_ok s" using assms by (simp_all add: session_inv_def)
  then have "session_inv (eject i (joint (last (mHeldBlocks (robot s)))) ch b s)"
    using False * by (simp add: session_inv_def held_ok_eject joints_ok_eject shapes_ok_eject)
  then show ?thesis using *(4) by simp
qed

lemma inv_intake_key:
  assumes "session_inv s" "intake_key p w jc s = Inr s'"
  shows "session_inv s'"
proof (cases "p \<and> \<not> w \<and> \<not> IsIntakeFull (robot s)")
  case False
  then show ?thesis using assms by (auto simp: intake_key_def)
next
  case True
  obtain d bb where n: "nearest_loop (GetFrontPosition (robot s)) (blocks s) 0 (999, None) = (d, bb)"
    by (cases "nearest_loop (GetFrontPosition (robot s)) (blocks s) 0 (999, None)")
  show ?thesis
  proof (cases bb)
    case None
    then show ?thesis using assms True n by (simp add: intake_key_def Let_def)
  next
    case (Some i)
    then obtain ok where "TryIntake i jc s = Inr (ok, s')"
      using assms(2) True n by (auto simp: intake_key_def Let_def split: sum.splits)
    then show ?thesis using assms(1) by (rule inv_TryIntake[rotated])
  qed
qed

lemma inv_step:
  assumes "session_inv s" "step eng ev s = Inr s'"
  shows "session_inv s'"
proof (cases ev)
  case (SetDriveInput_ev l r)
  then show ?thesis using assms by (auto simp: SetDriveInput_def intro!: inv_robot_only)
next
  case (Spawn_ev created c)
  then show ?thesis using assms by (auto intro: inv_spawn_key)
next
  case (TryIntake_ev i jc)
  then obtain ok where "TryIntake i jc s = Inr (ok, s')"
    using assms(2) by (auto split: sum.splits)
  then show ?thesis using assms(1) by (rule inv_TryIntake[rotated])
next
  case (IntakeKey_ev jc)
  then show ?thesis using assms by (auto intro: inv_intake_key)
next
  case Outtake_ev
  then show ?thesis using assms inv_Outtake[of s] by auto
next
  case (Robot_Update_ev dt)
  then show ?thesis using assms by (auto simp: Robot_Update_fields intro!: inv_robot_only)
next
  case (PhysicsWorld_Update_ev dt)
  then show ?thesis using assms by (auto intro: inv_PhysicsWorld_Update)
qed

lemma inv_run:
  "session_inv s \<Longrightarrow> run eng evs s = Inr s' \<Longrightarrow> session_inv s'"
proof (induction evs arbitrary: s)
  case Nil
  then show ?case by simp
next
  case (Cons e es)
  then obtain s1 where "step eng e s = Inr s1" "run eng es s1 = Inr s'"
    by (auto split: sum.splits)
  then show ?case using Cons.IH Cons.prems(1) inv_step by blast
qed

lemma main_setup_Inr:
  assumes "main_setup created = Inr s"
  shows "blocks s = []" "mHeldBlocks (robot s) = []" "fixedJoints s = []" "mScene s"
    "(mChassis (robot s) \<noteq> None) = created"
proof -
  have w: "mHeldBlocks (wheels_loop c xs r) = mHeldBlocks r \<and> mChassis (wheels_loop c xs r) = mChassis r"
    for c xs r
    by (induction c xs r rule: wheels_loop.induct) (simp_all add: case_prod_beta Let_def)
  obtain r where r: "Robot_Initialize created (PxVec3 0 (1 / 2) 0) Robot_ctor = Inr r"
    and s: "s = \<lparr>robot = r, blocks = [], mScene = True, fixedJoints = [], nextJoint = 0\<rparr>"
    using assms by (auto simp: main_setup_def split: sum.splits)
  have "mHeldBlocks r = [] \<and> (mChassis r \<noteq> None) = created"
    using r by (cases created) (auto simp: Robot_Initialize_def CreateWheels_def Robot_ctor_def w Let_def)
  then show "blocks s = []" "mHeldBlocks (robot s) = []" "fixedJoints s = []" "mScene s"
    "(mChassis (robot s) \<noteq> None) = created"
    by (simp_all add: s)
qed

lemma inv_main_setup: "main_setup created = Inr s \<Longrightarrow> session_inv s"
  by (simp add: session_inv_def held_ok_def joints_ok_def shapes_ok_def main_setup_Inr)

lemma inv_session: 
  assumes "session eng created evs = Inr s"
  shows "session_inv s"
proof -
  obtain s0 where "main_setup created = Inr s0" "run eng evs s0 = Inr s"
    using assms by (auto simp: session_def split: sum.splits)
  then show ?thesis using inv_main_setup inv_run by blast
qed

subsection \<open>Evaluating closed sessions\<close>

lemma wheels_loop_fields:
  "mChassis (wheels_loop c xs r) = mChassis r"
  "mHeldBlocks (wheels_loop c xs r) = mHeldBlocks r"
  "mThrottleInput (wheels_loop c xs r) = mThrottleInput r"
  "mTurnInput (wheels_loop c xs r) = mTurnInput r"
  "length (mWheelJoints (wheels_loop c xs r)) = length (mWheelJoints r) + length xs"
  "length (mWheels (wheels_loop c xs r)) = length (mWheels r) + length xs"
  by (induction c xs r rule: wheels_loop.induct) (simp_all add: case_prod_beta Let_def)

text \<open>
  Rounding is evaluated at closed rational arguments only, so that an operation whose
  argument is still a variable is left alone.
\<close>

lemma round32_closed:
  "round32 0 = 0"
  "round32 1 = 1"
  "round32 (- 1) = - 1"
  "round32 (numeral n) = of_int (rne (numeral n / 2 powi (binade (numeral n) - 23))) * 2 powi (binade (numeral n) - 23)"
  "round32 (- numeral n)
     = of_int (rne (- numeral n / 2 powi (binade (- numeral n) - 23))) * 2 powi (binade (- numeral n) - 23)"
  "round32 (numeral n / numeral m)
     = of_int (rne (numeral n / numeral m / 2 powi (binade (numeral n / numeral m) - 23)))
       * 2 powi (binade (numeral n / numeral m) - 23)"
  "round32 (- (numeral n / numeral m))
     = of_int (rne (- (numeral n / numeral m) / 2 powi (binade (- (numeral n / numeral m)) - 23)))
       * 2 powi (binade (- (numeral n / numeral m)) - 23)"
  "round32 (1 / numeral m)
     = of_int (rne (1 / numeral m / 2 powi (binade (1 / numeral m) - 23)))
       * 2 powi (binade (1 / numeral m) - 23)"
  "round32 (- (1 / numeral m))
     = of_int (rne (- (1 / numeral m) / 2 powi (binade (- (1 / numeral m)) - 23)))
       * 2 powi (binade (- (1 / numeral m)) - 23)"
  by (simp_all add: round32_def binade_def rne_def Let_def)

lemmas f32 = binade_def rne_def round32_closed fadd_def fsub_def fmul_def fdiv_def

lemmas eval_defs = session_def main_setup_def Robot_Initialize_def CreateWheels_def Robot_ctor_def
   wheels_loop_fields
   spawn_key_def SpawnBlock_def TryIntake_def GetFrontPosition_def Let_def IsIntakeFull_def MAX_HELD_BLOCKS_def  INTAKE_RANGE_def
   createRigidDynamic_def attachShape_def SetActorFilter_def createShape_def transform_of_pos_def transform_point_def
   quat_identity_def ROBOT_LENGTH_def ROBOT_WIDTH_def vec_zero_def set_first_shape_filter_def
   Outtake_def release_joint_def f32 fsqrt_spawn fsqrt_near fsqrt_far fsqrt_boundary

subsection \<open>Counting the records of a block\<close>

lemma count_distinct_map:
  "distinct (map f xs) \<Longrightarrow> length (filter (\<lambda>x. f x = a) xs) = (if a \<in> f ` set xs then 1 else 0)"
  by (induction xs) auto

lemma held_refs_held_ok:
  assumes "held_ok s" "i < length (blocks s)"
  shows "held_refs s i = (if held (blocks s ! i) then 1 else 0)"
proof -
  have d: "distinct (map block (mHeldBlocks (robot s)))"
    using assms(1) by (simp add: held_ok_def)
  have "(Some i \<in> block ` set (mHeldBlocks (robot s))) = held (blocks s ! i)"
  proof
    assume "Some i \<in> block ` set (mHeldBlocks (robot s))"
    then obtain hb where "hb \<in> set (mHeldBlocks (robot s))" "block hb = Some i" by force
    then show "held (blocks s ! i)" using assms(1) unfolding held_ok_def by force
  next
    assume "held (blocks s ! i)"
    then show "Some i \<in> block ` set (mHeldBlocks (robot s))"
      using assms unfolding held_ok_def by blast
  qed
  then show ?thesis
    unfolding held_refs_def using count_distinct_map[OF d, of "Some i"] by simp
qed

subsection \<open>Fields after an intake and after an outtake\<close>

lemma attach_fields:
  "mHeldBlocks (robot (attach i ch b s)) = mHeldBlocks (robot s) @ [\<lparr>block = Some i, joint = Some (nextJoint s)\<rparr>]"
  "mChassis (robot (attach i ch b s)) = mChassis (robot s)"
  "length (blocks (attach i ch b s)) = length (blocks s)"
  "fixedJoints (attach i ch b s) = fixedJoints s @ [(nextJoint s, i)]"
  "nextJoint (attach i ch b s) = Suc (nextJoint s)"
  by (simp_all add: attach_def)

lemma attach_nth:
  "i < length (blocks s) \<Longrightarrow>
     blocks (attach i ch b s) ! k
       = (if k = i then (blocks s ! i)\<lparr>body := Some (intake_body ch b), held := True\<rparr> else blocks s ! k)"
  by (simp add: attach_def nth_list_update)

lemma eject_fields:
  "mHeldBlocks (robot (eject i j ch b s)) = butlast (mHeldBlocks (robot s))"
  "mChassis (robot (eject i j ch b s)) = mChassis (robot s)"
  "length (blocks (eject i j ch b s)) = length (blocks s)"
  "fixedJoints (eject i j ch b s) = release_joint j (fixedJoints s)"
  "nextJoint (eject i j ch b s) = nextJoint s"
  by (simp_all add: eject_def)

lemma eject_nth:
  "i < length (blocks s) \<Longrightarrow>
     blocks (eject i j ch b s) ! k
       = (if k = i then (blocks s ! i)\<lparr>body := Some (eject_body ch b), held := False\<rparr> else blocks s ! k)"
  by (simp add: eject_def nth_list_update)

lemma TryIntake_True:
  assumes "TryIntake i jc s = Inr (True, s')"
  obtains ch b where "i < length (blocks s)" "can_intake s i ch b" "jc" "s' = attach i ch b s"
  using assms by (cases rule: TryIntake_cases) simp_all

subsection \<open>A null chassis stays null\<close>

lemma intake_key_cases:
  assumes "intake_key p w jc s = Inr s'"
  obtains (idle) "s' = s"
  | (tried) i ok where "nearest_free s = Some i" "TryIntake i jc s = Inr (ok, s')"
proof (cases "p \<and> \<not> w \<and> \<not> IsIntakeFull (robot s)")
  case False
  then have "s' = s" using assms by (auto simp: intake_key_def)
  then show ?thesis by (rule idle)
next
  case True
  obtain d bb where n: "nearest_loop (GetFrontPosition (robot s)) (blocks s) 0 (999, None) = (d, bb)"
    by (cases "nearest_loop (GetFrontPosition (robot s)) (blocks s) 0 (999, None)")
  show ?thesis
  proof (cases bb)
    case None
    then have "s' = s" using assms True n by (simp add: intake_key_def Let_def)
    then show ?thesis by (rule idle)
  next
    case (Some i)
    then obtain ok where "TryIntake i jc s = Inr (ok, s')"
      using assms True n by (auto simp: intake_key_def Let_def split: sum.splits)
    moreover have "nearest_free s = Some i" using n Some by (simp add: nearest_free_def)
    ultimately show ?thesis by (rule tried[rotated])
  qed
qed

lemma TryIntake_chassis:
  assumes "TryIntake i jc s = Inr (ok, s')"
  shows "mChassis (robot s') = mChassis (robot s)"
  using assms by (cases rule: TryIntake_cases) (simp_all add: half_attach_def attach_def)

lemma Outtake_chassis:
  assumes "Outtake s = Inr s'"
  shows "mChassis (robot s') = mChassis (robot s)"
proof (cases "mHeldBlocks (robot s) = []")
  case True
  then show ?thesis using assms by (simp add: Outtake_def)
next
  case False
  let ?r = "(robot s)\<lparr>mHeldBlocks := butlast (mHeldBlocks (robot s))\<rparr>"
  have "robot s' = ?r"
    using assms False
    by (auto simp add: Outtake_def Let_def split: option.splits if_splits)
  then show ?thesis by simp
qed

lemma chassis_None_step:
  assumes "mChassis (robot s) = None" "step eng ev s = Inr s'"
  shows "mChassis (robot s') = None"
proof (cases ev)
  case (SetDriveInput_ev l r)
  then show ?thesis using assms by (auto simp: SetDriveInput_def)
next
  case (Spawn_ev created c)
  then show ?thesis using assms by (auto elim!: spawn_key_Inr)
next
  case (TryIntake_ev i jc)
  then obtain ok where "TryIntake i jc s = Inr (ok, s')"
    using assms(2) by (auto split: sum.splits)
  then show ?thesis using assms(1) TryIntake_chassis by simp
next
  case (IntakeKey_ev jc)
  then have "intake_key True False jc s = Inr s'" using assms(2) by simp
  then show ?thesis using assms(1)
    by (cases rule: intake_key_cases) (simp_all add: TryIntake_chassis)
next
  case Outtake_ev
  then show ?thesis using assms Outtake_chassis by simp
next
  case (Robot_Update_ev dt)
  then show ?thesis using assms by (auto simp: Robot_Update_fields)
next
  case (PhysicsWorld_Update_ev dt)
  then show ?thesis using assms by (auto simp: PhysicsWorld_Update_def robot_simulate)
qed

lemma chassis_None_run:
  "mChassis (robot s) = None \<Longrightarrow> run eng evs s = Inr s' \<Longrightarrow> mChassis (robot s') = None"
proof (induction evs arbitrary: s)
  case Nil
  then show ?case by simp
next
  case (Cons e es)
  then obtain s1 where "step eng e s = Inr s1" "run eng es s1 = Inr s'"
    by (auto split: sum.splits)
  then show ?case using Cons.IH Cons.prems(1) chassis_None_step by blast
qed

lemma chassis_None_session:
  assumes "session eng False evs = Inr s"
  shows "mChassis (robot s) = None"
proof -
  obtain s0 where s0: "main_setup False = Inr s0" "run eng evs s0 = Inr s"
    using assms by (auto simp: session_def split: sum.splits)
  have "mChassis (robot s0) = None" using main_setup_Inr(5)[OF s0(1)] by simp
  then show ?thesis using s0(2) by (rule chassis_None_run)
qed

subsection \<open>The filter data of a free block\<close>

lemma block_row_eject:
  "PxFilterData_default\<lparr>word0 := eBLOCK, word1 := eGROUND OR eCHASSIS OR eOBSTACLE OR eBLOCK OR eWHEEL\<rparr>
     = block_row"
  by (simp add: PxFilterData_default_def block_row_def eGROUND_def eCHASSIS_def eOBSTACLE_def
      eBLOCK_def eWHEEL_def)

lemma block_row_spawn:
  "PxFilterData_default\<lparr>word0 := eBLOCK, word1 := eGROUND OR eCHASSIS OR eWHEEL OR eOBSTACLE OR eBLOCK\<rparr>
     = block_row"
  by (simp add: PxFilterData_default_def block_row_def)

subsection \<open>The search of the intake handler\<close>

lemma nearest_loop_Cons:
  "nearest_loop frontPos (x # xs) i (bd, bb) =
     (case free_dist frontPos x of
        None \<Rightarrow> nearest_loop frontPos xs (Suc i) (bd, bb)
      | Some dx \<Rightarrow> if dx < bd then nearest_loop frontPos xs (Suc i) (dx, Some i)
                     else nearest_loop frontPos xs (Suc i) (bd, bb))"
  by (simp add: free_dist_def Let_def split: option.splits)

lemma nearest_loop_min:
  assumes "nearest_loop frontPos xs (length pre) (bd, bb) = (d, r)"
    and "\<forall>k < length pre. \<forall>dk. free_dist frontPos (pre ! k) = Some dk \<longrightarrow> bd \<le> dk"
    and "case bb of None \<Rightarrow> True | Some j \<Rightarrow> j < length pre \<and> free_dist frontPos (pre ! j) = Some bd"
  shows "(\<forall>k < length (pre @ xs). \<forall>dk. free_dist frontPos ((pre @ xs) ! k) = Some dk \<longrightarrow> d \<le> dk)
       \<and> (case r of None \<Rightarrow> bb = None \<and> d = bd
                    | Some j \<Rightarrow> j < length (pre @ xs) \<and> free_dist frontPos ((pre @ xs) ! j) = Some d)
       \<and> (r \<noteq> bb \<longrightarrow> d < bd) \<and> d \<le> bd"
  using assms
proof (induction xs arbitrary: pre bd bb)
  case Nil
  then show ?case by (auto split: option.splits)
next
  case (Cons x xs)
  let ?pre = "pre @ [x]"
  have len: "length ?pre = Suc (length pre)" by simp
  have app: "?pre @ xs = pre @ x # xs" by simp
  show ?case
  proof (cases "free_dist frontPos x")
    case None
    have run: "nearest_loop frontPos xs (length ?pre) (bd, bb) = (d, r)"
      using Cons.prems(1) None by (simp add: nearest_loop_Cons del: nearest_loop.simps)
    have a: "\<forall>k < length ?pre. \<forall>dk. free_dist frontPos (?pre ! k) = Some dk \<longrightarrow> bd \<le> dk"
      using Cons.prems(2) None by (auto simp: nth_append less_Suc_eq)
    have b: "case bb of None \<Rightarrow> True | Some j \<Rightarrow> j < length ?pre \<and> free_dist frontPos (?pre ! j) = Some bd"
      using Cons.prems(3) by (auto simp: nth_append split: option.splits)
    from Cons.IH[OF run a b] show ?thesis unfolding app .
  next
    case (Some dx)
    show ?thesis
    proof (cases "dx < bd")
      case True
      have run: "nearest_loop frontPos xs (length ?pre) (dx, Some (length pre)) = (d, r)"
        using Cons.prems(1) Some True by (simp add: nearest_loop_Cons del: nearest_loop.simps)
      have a: "\<forall>k < length ?pre. \<forall>dk. free_dist frontPos (?pre ! k) = Some dk \<longrightarrow> dx \<le> dk"
        using Cons.prems(2) Some True by (fastforce simp: nth_append less_Suc_eq)
      have b: "case Some (length pre) of None \<Rightarrow> True
               | Some j \<Rightarrow> j < length ?pre \<and> free_dist frontPos (?pre ! j) = Some dx"
        using Some by simp
      from Cons.IH[OF run a b] True show ?thesis unfolding app
        by (auto split: option.splits)
    next
      case False
      have run: "nearest_loop frontPos xs (length ?pre) (bd, bb) = (d, r)"
        using Cons.prems(1) Some False by (simp add: nearest_loop_Cons del: nearest_loop.simps)
      have a: "\<forall>k < length ?pre. \<forall>dk. free_dist frontPos (?pre ! k) = Some dk \<longrightarrow> bd \<le> dk"
        using Cons.prems(2) Some False by (auto simp: nth_append less_Suc_eq)
      have b: "case bb of None \<Rightarrow> True | Some j \<Rightarrow> j < length ?pre \<and> free_dist frontPos (?pre ! j) = Some bd"
        using Cons.prems(3) by (auto simp: nth_append split: option.splits)
      from Cons.IH[OF run a b] show ?thesis unfolding app .
    qed
  qed
qed

lemma nearest_free_min:
  fixes s :: Simulation
  defines "front \<equiv> GetFrontPosition (robot s)"
  shows "(nearest_free s = None \<longrightarrow>
            (\<forall>k < length (blocks s). \<forall>dk. free_dist front (blocks s ! k) = Some dk \<longrightarrow> 999 \<le> dk))
       \<and> (\<forall>j. nearest_free s = Some j \<longrightarrow>
            j < length (blocks s)
            \<and> (\<exists>d. free_dist front (blocks s ! j) = Some d \<and> d < 999
                  \<and> (\<forall>k < length (blocks s). \<forall>dk. free_dist front (blocks s ! k) = Some dk \<longrightarrow> d \<le> dk)))"
proof -
  obtain d r where n: "nearest_loop front (blocks s) (length ([] :: GameBlock list)) (999, None) = (d, r)"
    by (cases "nearest_loop front (blocks s) (length ([] :: GameBlock list)) (999, None)")
  have r: "nearest_free s = r" using n by (simp add: nearest_free_def front_def)
  from nearest_loop_min[OF n] show ?thesis
    unfolding r by (auto split: option.splits)
qed

lemma intake_key_eq:
  "intake_key True False jc s =
     (if IsIntakeFull (robot s) then Inr s
      else case nearest_free s of
             None \<Rightarrow> Inr s
           | Some j \<Rightarrow> (case TryIntake j jc s of Inl e \<Rightarrow> Inl e | Inr (ok, s') \<Rightarrow> Inr s'))"
  by (simp add: intake_key_def nearest_free_def Let_def case_prod_beta)

lemma can_intake_free_dist:
  assumes "can_intake s i ch b"
  shows "\<exists>d. free_dist (GetFrontPosition (robot s)) (blocks s ! i) = Some d \<and> d \<le> INTAKE_RANGE"
  using assms by (simp add: can_intake_def free_dist_def not_less)

lemma TryIntake_out_of_range:
  assumes "i < length (blocks s)"
    and "free_dist (GetFrontPosition (robot s)) (blocks s ! i) = Some d" and "INTAKE_RANGE < d"
  shows "TryIntake i jc s = Inr (False, s)"
proof (rule TryIntake_cannot[OF assms(1)])
  fix ch b
  show "\<not> can_intake s i ch b"
    using assms(2,3) by (auto simp: can_intake_def free_dist_def split: option.splits if_splits)
qed

lemma TryIntake_in_range:
  assumes "i < length (blocks s)" and "mChassis (robot s) \<noteq> None" and "\<not> IsIntakeFull (robot s)"
    and "free_dist (GetFrontPosition (robot s)) (blocks s ! i) = Some d" and "d \<le> INTAKE_RANGE"
  shows "\<exists>s'. TryIntake i True s = Inr (True, s')"
proof -
  obtain ch where ch: "mChassis (robot s) = Some ch" using assms(2) by auto
  obtain b where b: "body (blocks s ! i) = Some b" "\<not> held (blocks s ! i)"
    "d = magnitude (vec_sub (GetFrontPosition (robot s)) (pose_p (globalPose b)))"
    using assms(4) by (auto simp: free_dist_def split: option.splits if_splits)
  have "can_intake s i ch b"
    using ch b assms(3,5) by (simp add: can_intake_def IsIntakeFull_def not_le not_less)
  from TryIntake_can[OF assms(1) this, of True] show ?thesis by simp
qed

lemma nearest_loop_first:
  assumes "nearest_loop frontPos xs (length pre) (bd, bb) = (d, r)"
    and "\<forall>k < length pre. \<forall>dk. free_dist frontPos (pre ! k) = Some dk \<longrightarrow> bd \<le> dk"
    and "case bb of None \<Rightarrow> True
         | Some j \<Rightarrow> j < length pre
                     \<and> (\<forall>k < j. \<forall>dk. free_dist frontPos (pre ! k) = Some dk \<longrightarrow> bd < dk)"
  shows "case r of None \<Rightarrow> True
         | Some j \<Rightarrow> (\<forall>k < j. \<forall>dk. free_dist frontPos ((pre @ xs) ! k) = Some dk \<longrightarrow> d < dk)"
  using assms
proof (induction xs arbitrary: pre bd bb)
  case Nil
  then show ?case by (auto split: option.splits)
next
  case (Cons x xs)
  let ?pre = "pre @ [x]"
  have len: "length ?pre = Suc (length pre)" by simp
  have app: "?pre @ xs = pre @ x # xs" by simp
  have keep: "case bb of None \<Rightarrow> True
         | Some j \<Rightarrow> j < length ?pre
                     \<and> (\<forall>k < j. \<forall>dk. free_dist frontPos (?pre ! k) = Some dk \<longrightarrow> bd < dk)"
    using Cons.prems(3) by (auto simp: nth_append split: option.splits)
  show ?case
  proof (cases "free_dist frontPos x")
    case None
    have run: "nearest_loop frontPos xs (length ?pre) (bd, bb) = (d, r)"
      using Cons.prems(1) None by (simp add: nearest_loop_Cons del: nearest_loop.simps)
    have a: "\<forall>k < length ?pre. \<forall>dk. free_dist frontPos (?pre ! k) = Some dk \<longrightarrow> bd \<le> dk"
      using Cons.prems(2) None by (auto simp: nth_append less_Suc_eq)
    from Cons.IH[OF run a keep] show ?thesis unfolding app .
  next
    case (Some dx)
    show ?thesis
    proof (cases "dx < bd")
      case True
      have run: "nearest_loop frontPos xs (length ?pre) (dx, Some (length pre)) = (d, r)"
        using Cons.prems(1) Some True by (simp add: nearest_loop_Cons del: nearest_loop.simps)
      have a: "\<forall>k < length ?pre. \<forall>dk. free_dist frontPos (?pre ! k) = Some dk \<longrightarrow> dx \<le> dk"
        using Cons.prems(2) Some True by (fastforce simp: nth_append less_Suc_eq)
      have b: "case Some (length pre) of None \<Rightarrow> True
               | Some j \<Rightarrow> j < length ?pre
                     \<and> (\<forall>k < j. \<forall>dk. free_dist frontPos (?pre ! k) = Some dk \<longrightarrow> dx < dk)"
        using Cons.prems(2) True by (fastforce simp: nth_append)
      from Cons.IH[OF run a b] show ?thesis unfolding app .
    next
      case False
      have run: "nearest_loop frontPos xs (length ?pre) (bd, bb) = (d, r)"
        using Cons.prems(1) Some False by (simp add: nearest_loop_Cons del: nearest_loop.simps)
      have a: "\<forall>k < length ?pre. \<forall>dk. free_dist frontPos (?pre ! k) = Some dk \<longrightarrow> bd \<le> dk"
        using Cons.prems(2) Some False by (auto simp: nth_append less_Suc_eq)
      from Cons.IH[OF run a keep] show ?thesis unfolding app .
    qed
  qed
qed

lemma nearest_free_first:
  assumes "nearest_free s = Some j"
    and "free_dist (GetFrontPosition (robot s)) (blocks s ! j) = Some dj"
    and "k < j" and "free_dist (GetFrontPosition (robot s)) (blocks s ! k) = Some dk"
  shows "dj < dk"
proof -
  let ?front = "GetFrontPosition (robot s)"
  obtain d r where n: "nearest_loop ?front (blocks s) (length ([] :: GameBlock list)) (999, None) = (d, r)"
    by (cases "nearest_loop ?front (blocks s) (length ([] :: GameBlock list)) (999, None)")
  have r: "r = Some j" using n assms(1) by (simp add: nearest_free_def)
  from nearest_loop_min[OF n] r assms(2) have d: "d = dj" by simp
  from nearest_loop_first[OF n] r assms(3,4) show ?thesis unfolding d by simp
qed

subsection \<open>The exact distance\<close>

lemma euclidean_greater:
  assumes "0 \<le> c"
    and "c * c < (x1 - x2) * (x1 - x2) + (y1 - y2) * (y1 - y2) + (z1 - z2) * (z1 - z2)"
  shows "c < euclidean (PxVec3 x1 y1 z1) (PxVec3 x2 y2 z2)"
  using assms by (simp add: euclidean_def real_less_rsqrt power2_eq_square)

lemma euclidean_less:
  assumes "(x1 - x2) * (x1 - x2) + (y1 - y2) * (y1 - y2) + (z1 - z2) * (z1 - z2)
         < (x1 - x3) * (x1 - x3) + (y1 - y3) * (y1 - y3) + (z1 - z3) * (z1 - z3)"
  shows "euclidean (PxVec3 x1 y1 z1) (PxVec3 x2 y2 z2) < euclidean (PxVec3 x1 y1 z1) (PxVec3 x3 y3 z3)"
  using assms by (simp add: euclidean_def)

section \<open>The claims\<close>

subsection \<open>Collision filter rule\<close>

text \<open>
  Claim C5.  For two objects neither of which is a trigger, the filter shader lets the
  pair through with the contact flags and the touch-found notification exactly when each
  category meets the other's mask, and otherwise suppresses the pair (the pair flags stay
  as they were).  When either object is a trigger the pair passes with the trigger flags,
  whatever the filter data.
\<close>

theorem VehicleFilterShader_rule:
  "(\<not> PxFilterObjectIsTrigger a0 \<and> \<not> PxFilterObjectIsTrigger a1 \<longrightarrow>
      ((VehicleFilterShader a0 f0 a1 f1 pf = (eDEFAULT, {eCONTACT_DEFAULT, eNOTIFY_TOUCH_FOUND}))
          = masks_accept f0 f1)
      \<and> (\<not> masks_accept f0 f1 \<longrightarrow> VehicleFilterShader a0 f0 a1 f1 pf = (eSUPPRESS, pf)))
   \<and> (PxFilterObjectIsTrigger a0 \<or> PxFilterObjectIsTrigger a1 \<longrightarrow>
        VehicleFilterShader a0 f0 a1 f1 pf = (eDEFAULT, {eTRIGGER_DEFAULT}))"
  by (auto simp: VehicleFilterShader_def masks_accept_def)

theorem VehicleFilterShader_rule_witness:
  "VehicleFilterShader 0 \<lparr>word0 = 16, word1 = 31, word2 = 0, word3 = 0\<rparr>
                       0 \<lparr>word0 = 4, word1 = 25, word2 = 0, word3 = 0\<rparr> {}
     = (eDEFAULT, {eCONTACT_DEFAULT, eNOTIFY_TOUCH_FOUND})
   \<and> VehicleFilterShader 0 \<lparr>word0 = 4, word1 = 25, word2 = 0, word3 = 0\<rparr>
                         0 \<lparr>word0 = 2, word1 = 27, word2 = 0, word3 = 0\<rparr> {}
     = (eSUPPRESS, {})
   \<and> VehicleFilterShader 32 \<lparr>word0 = 0, word1 = 0, word2 = 0, word3 = 0\<rparr>
                         0 \<lparr>word0 = 2, word1 = 27, word2 = 0, word3 = 0\<rparr> {}
     = (eDEFAULT, {eTRIGGER_DEFAULT})"
  using
    VehicleFilterShader_rule [of 0 0 "\<lparr>word0 = 16, word1 = 31, word2 = 0, word3 = 0\<rparr>"
      "\<lparr>word0 = 4, word1 = 25, word2 = 0, word3 = 0\<rparr>" "{}"]
    VehicleFilterShader_rule [of 0 0 "\<lparr>word0 = 4, word1 = 25, word2 = 0, word3 = 0\<rparr>"
      "\<lparr>word0 = 2, word1 = 27, word2 = 0, word3 = 0\<rparr>" "{}"]
    VehicleFilterShader_rule [of 32 0 "\<lparr>word0 = 0, word1 = 0, word2 = 0, word3 = 0\<rparr>"
      "\<lparr>word0 = 2, word1 = 27, word2 = 0, word3 = 0\<rparr>" "{}"]
  by (simp add: PxFilterObjectIsTrigger_def eTRIGGER_def masks_accept_def)

subsection \<open>Held flag and held records\<close>

text \<open>
  Claim C1.  In every state a session can reach, by any sequence of spawns, intakes
  (direct or through the handler), outtakes, drive inputs, robot updates and physics steps,
  each block of the block list is in exactly one of two conditions: its held flag is false
  and no record of the held sequence refers to it, or its held flag is true and exactly one
  record refers to it.
\<close>

theorem held_flag_agrees_with_records:
  assumes "session eng created evs = Inr s" and "i < length (blocks s)"
  shows "(\<not> held (blocks s ! i) \<and> held_refs s i = 0) \<or> (held (blocks s ! i) \<and> held_refs s i = 1)"
proof -
  have "held_ok s" using inv_session[OF assms(1)] by (simp add: session_inv_def)
  from held_refs_held_ok[OF this assms(2)] show ?thesis by simp
qed

theorem held_flag_agrees_with_records_witness:
  "\<exists>s. session demo_engine True [Spawn_ev True RED, TryIntake_ev 0 True, Spawn_ev True BLUE] = Inr s
       \<and> length (blocks s) = 2
       \<and> held (blocks s ! 0) \<and> held_refs s 0 = 1
       \<and> \<not> held (blocks s ! 1) \<and> held_refs s 1 = 0"
proof -
  have "\<exists>s. session demo_engine True [Spawn_ev True RED, TryIntake_ev 0 True, Spawn_ev True BLUE] = Inr s
       \<and> length (blocks s) = 2 \<and> held (blocks s ! 0) \<and> \<not> held (blocks s ! 1)"
    by (simp add: eval_defs del: wheels_loop.simps)
  then obtain s where s: "session demo_engine True [Spawn_ev True RED, TryIntake_ev 0 True, Spawn_ev True BLUE] = Inr s"
    "length (blocks s) = 2" "held (blocks s ! 0)" "\<not> held (blocks s ! 1)"
    by blast
  have "held_refs s 0 = 1"
    using held_flag_agrees_with_records[OF s(1), of 0] s(2,3) by simp
  moreover have "held_refs s 1 = 0"
    using held_flag_agrees_with_records[OF s(1), of 1] s(2,4) by simp
  ultimately show ?thesis using s by blast
qed

subsection \<open>Capacity\<close>

text \<open>
  Claim C2.  In every state a session can reach the held sequence has at most
  \<open>MAX_HELD_BLOCKS = 8\<close> records, and when it has eight, \<open>TryIntake\<close> on any block returns
  false and the whole simulation (every body with its pose, velocities and filter data, the
  held sequence, the table of fixed joints and the next joint handle) is as before.
\<close>

theorem held_sequence_bounded:
  assumes "session eng created evs = Inr s"
  shows "MAX_HELD_BLOCKS = 8 \<and> length (mHeldBlocks (robot s)) \<le> MAX_HELD_BLOCKS
     \<and> (length (mHeldBlocks (robot s)) = MAX_HELD_BLOCKS \<longrightarrow>
          (\<forall>i < length (blocks s). \<forall>jointCreated. TryIntake i jointCreated s = Inr (False, s)))"
proof -
  have "held_ok s" using inv_session[OF assms(1)] by (simp add: session_inv_def)
  then have "length (mHeldBlocks (robot s)) \<le> MAX_HELD_BLOCKS" by (simp add: held_ok_def)
  moreover have "TryIntake i jc s = Inr (False, s)"
    if "length (mHeldBlocks (robot s)) = MAX_HELD_BLOCKS" "i < length (blocks s)" for i jc
    using that by (intro TryIntake_cannot) (simp_all add: can_intake_def)
  ultimately show ?thesis by (simp add: MAX_HELD_BLOCKS_def)
qed

theorem held_sequence_bounded_witness:
  "\<exists>s. session demo_engine True
       [Spawn_ev True RED, TryIntake_ev 0 True, Spawn_ev True RED, TryIntake_ev 1 True,
        Spawn_ev True RED, TryIntake_ev 2 True, Spawn_ev True RED, TryIntake_ev 3 True,
        Spawn_ev True RED, TryIntake_ev 4 True, Spawn_ev True RED, TryIntake_ev 5 True,
        Spawn_ev True RED, TryIntake_ev 6 True, Spawn_ev True RED, TryIntake_ev 7 True,
        Spawn_ev True BLUE] = Inr s
     \<and> length (mHeldBlocks (robot s)) = 8 \<and> length (blocks s) = 9
     \<and> TryIntake 8 True s = Inr (False, s)"
proof -
  have "\<exists>s. session demo_engine True
       [Spawn_ev True RED, TryIntake_ev 0 True, Spawn_ev True RED, TryIntake_ev 1 True,
        Spawn_ev True RED, TryIntake_ev 2 True, Spawn_ev True RED, TryIntake_ev 3 True,
        Spawn_ev True RED, TryIntake_ev 4 True, Spawn_ev True RED, TryIntake_ev 5 True,
        Spawn_ev True RED, TryIntake_ev 6 True, Spawn_ev True RED, TryIntake_ev 7 True,
        Spawn_ev True BLUE] = Inr s
     \<and> length (mHeldBlocks (robot s)) = 8 \<and> length (blocks s) = 9"
    by (simp add: eval_defs del: wheels_loop.simps)
  then obtain s where s: "session demo_engine True
       [Spawn_ev True RED, TryIntake_ev 0 True, Spawn_ev True RED, TryIntake_ev 1 True,
        Spawn_ev True RED, TryIntake_ev 2 True, Spawn_ev True RED, TryIntake_ev 3 True,
        Spawn_ev True RED, TryIntake_ev 4 True, Spawn_ev True RED, TryIntake_ev 5 True,
        Spawn_ev True RED, TryIntake_ev 6 True, Spawn_ev True RED, TryIntake_ev 7 True,
        Spawn_ev True BLUE] = Inr s"
    "length (mHeldBlocks (robot s)) = 8" "length (blocks s) = 9"
    by blast
  have "TryIntake 8 True s = Inr (False, s)"
    using held_sequence_bounded[OF s(1)] s(2,3) by simp
  then show ?thesis using s by blast
qed

subsection \<open>Last in, first out\<close>

text \<open>
  Claim C3.  Outtake is last in, first out.  After three successive successful intakes of
  the blocks \<open>p1\<close>, \<open>p2\<close>, \<open>p3\<close>, a single \<open>Outtake\<close> succeeds and releases \<open>p3\<close> and
  nothing else.  The three intakes append, in this order, the records of \<open>p1\<close>, \<open>p2\<close> and
  \<open>p3\<close> with three different joint handles, and the same three joints to the table of live
  joints.  After the outtake the held flag of \<open>p3\<close> is cleared, its record (the last one) is
  gone and its joint is no longer live; \<open>p1\<close> and \<open>p2\<close> stay held, their records are still
  there with the joints they were given, and those two joints are still live, as is every
  other joint that was live before; no block other than \<open>p3\<close> is touched.
\<close>

theorem Outtake_releases_last_intake:
  assumes "TryIntake p1 j1 s0 = Inr (True, s1)"
    and "TryIntake p2 j2 s1 = Inr (True, s2)"
    and "TryIntake p3 j3 s2 = Inr (True, s3)"
  shows "\<exists>s4. Outtake s3 = Inr s4
     \<and> map block (mHeldBlocks (robot s3)) = map block (mHeldBlocks (robot s0)) @ [Some p1, Some p2, Some p3]
     \<and> \<not> held (blocks s4 ! p3) \<and> held (blocks s4 ! p1) \<and> held (blocks s4 ! p2)
     \<and> mHeldBlocks (robot s4) = mHeldBlocks (robot s2)
     \<and> (\<forall>k < length (blocks s3). k \<noteq> p3 \<longrightarrow> blocks s4 ! k = blocks s3 ! k)
     \<and> joint (last (mHeldBlocks (robot s3))) = Some (nextJoint s2)
     \<and> nextJoint s2 \<notin> fst ` set (fixedJoints s4)
     \<and> p1 \<noteq> p2 \<and> p1 \<noteq> p3 \<and> p2 \<noteq> p3
     \<and> nextJoint s1 = Suc (nextJoint s0) \<and> nextJoint s2 = Suc (nextJoint s1)
     \<and> mHeldBlocks (robot s4)
         = mHeldBlocks (robot s0) @ [\<lparr>block = Some p1, joint = Some (nextJoint s0)\<rparr>,
                                     \<lparr>block = Some p2, joint = Some (nextJoint s1)\<rparr>]
     \<and> fixedJoints s3
         = fixedJoints s0 @ [(nextJoint s0, p1), (nextJoint s1, p2), (nextJoint s2, p3)]
     \<and> fixedJoints s4
         = filter (\<lambda>e. fst e \<noteq> nextJoint s2) (fixedJoints s0) @ [(nextJoint s0, p1), (nextJoint s1, p2)]
     \<and> (nextJoint s0, p1) \<in> set (fixedJoints s4) \<and> (nextJoint s1, p2) \<in> set (fixedJoints s4)
     \<and> (\<forall>e \<in> set (fixedJoints s3). fst e \<noteq> nextJoint s2 \<longrightarrow> e \<in> set (fixedJoints s4))
     \<and> robot s4 = (robot s3)\<lparr>mHeldBlocks := mHeldBlocks (robot s2)\<rparr>
     \<and> nextJoint s4 = nextJoint s3 \<and> length (blocks s4) = length (blocks s3)"
proof -
  from assms(1) obtain c1 b1 where 1: "p1 < length (blocks s0)" "can_intake s0 p1 c1 b1" "s1 = attach p1 c1 b1 s0"
    by (rule TryIntake_True)
  from assms(2) obtain c2 b2 where 2: "p2 < length (blocks s1)" "can_intake s1 p2 c2 b2" "s2 = attach p2 c2 b2 s1"
    by (rule TryIntake_True)
  from assms(3) obtain c3 b3 where 3: "p3 < length (blocks s2)" "can_intake s2 p3 c3 b3" "s3 = attach p3 c3 b3 s2"
    by (rule TryIntake_True)
  have len: "length (blocks s1) = length (blocks s0)" "length (blocks s2) = length (blocks s0)"
    "length (blocks s3) = length (blocks s0)"
    by (simp_all add: 1 2 3 attach_fields)
  have h1: "held (blocks s1 ! p1)" using 1 by (simp add: attach_nth)
  have n12: "p2 \<noteq> p1" using 2(2) h1 by (auto simp: can_intake_def)
  have h2: "held (blocks s2 ! p1)" "held (blocks s2 ! p2)"
    using 2(1) h1 n12 by (simp_all add: 2(3) attach_nth)
  have n3: "p3 \<noteq> p1" "p3 \<noteq> p2" using 3(2) h2 by (auto simp: can_intake_def)
  have h3: "held (blocks s3 ! p1)" "held (blocks s3 ! p2)"
    using 3(1) h2 n3 by (simp_all add: 3(3) attach_nth)
  let ?hb = "\<lparr>block = Some p3, joint = Some (nextJoint s2)\<rparr>"
  have H3: "mHeldBlocks (robot s3) = mHeldBlocks (robot s2) @ [?hb]"
    by (simp add: 3(3) attach_fields)
  have H2: "mHeldBlocks (robot s2)
         = mHeldBlocks (robot s0) @ [\<lparr>block = Some p1, joint = Some (nextJoint s0)\<rparr>,
                                     \<lparr>block = Some p2, joint = Some (nextJoint s1)\<rparr>]"
    by (simp add: 1(3) 2(3) attach_fields)
  have nj: "nextJoint s1 = Suc (nextJoint s0)" "nextJoint s2 = Suc (nextJoint s1)"
    by (simp_all add: 1(3) 2(3) attach_fields)
  have J3: "fixedJoints s3
         = fixedJoints s0 @ [(nextJoint s0, p1), (nextJoint s1, p2), (nextJoint s2, p3)]"
    by (simp add: 1(3) 2(3) 3(3) attach_fields)
  have p3: "p3 < length (blocks s3)" using 3(1) len by simp
  have body3: "body (blocks s3 ! p3) = Some (intake_body c3 b3)"
    using 3(1) by (simp add: 3(3) attach_nth)
  have ch3: "mChassis (robot s3) = Some c3"
    using 3(2) by (simp add: 3(3) attach_fields can_intake_def)
  define s4 where "s4 = eject p3 (Some (nextJoint s2)) c3 (intake_body c3 b3) s3"
  have out: "Outtake s3 = Inr s4"
    using Outtake_eject[of s3 p3 "intake_body c3 b3" c3] H3 p3 body3 ch3 by (simp add: s4_def)
  have J4: "fixedJoints s4
         = filter (\<lambda>e. fst e \<noteq> nextJoint s2) (fixedJoints s0) @ [(nextJoint s0, p1), (nextJoint s1, p2)]"
    by (simp add: s4_def eject_fields release_joint_def J3 nj)
  have J4': "fixedJoints s4 = filter (\<lambda>e. fst e \<noteq> nextJoint s2) (fixedJoints s3)"
    by (simp add: s4_def eject_fields release_joint_def)
  have a: "map block (mHeldBlocks (robot s3)) = map block (mHeldBlocks (robot s0)) @ [Some p1, Some p2, Some p3]"
    by (simp add: 1 2 3 attach_fields)
  have b: "\<not> held (blocks s4 ! p3)" "held (blocks s4 ! p1)" "held (blocks s4 ! p2)"
    using p3 n3 h3 by (simp_all add: s4_def eject_nth)
  have c: "mHeldBlocks (robot s4) = mHeldBlocks (robot s2)"
    by (simp add: s4_def eject_fields H3)
  have d: "\<forall>k < length (blocks s3). k \<noteq> p3 \<longrightarrow> blocks s4 ! k = blocks s3 ! k"
    using p3 by (simp add: s4_def eject_nth)
  have e: "joint (last (mHeldBlocks (robot s3))) = Some (nextJoint s2)"
    by (simp add: H3)
  have f: "nextJoint s2 \<notin> fst ` set (fixedJoints s4)"
    by (auto simp: J4')
  have g: "p1 \<noteq> p2" "p1 \<noteq> p3" "p2 \<noteq> p3" using n12 n3 by auto
  have h: "mHeldBlocks (robot s4)
         = mHeldBlocks (robot s0) @ [\<lparr>block = Some p1, joint = Some (nextJoint s0)\<rparr>,
                                     \<lparr>block = Some p2, joint = Some (nextJoint s1)\<rparr>]"
    using c H2 by simp
  have i: "(nextJoint s0, p1) \<in> set (fixedJoints s4)" "(nextJoint s1, p2) \<in> set (fixedJoints s4)"
    by (simp_all add: J4)
  have j: "\<forall>e \<in> set (fixedJoints s3). fst e \<noteq> nextJoint s2 \<longrightarrow> e \<in> set (fixedJoints s4)"
    by (simp add: J4')
  have k: "robot s4 = (robot s3)\<lparr>mHeldBlocks := mHeldBlocks (robot s2)\<rparr>"
    "nextJoint s4 = nextJoint s3" "length (blocks s4) = length (blocks s3)"
    by (simp_all add: s4_def eject_def H3)
  show ?thesis
    by (intro exI[of _ s4] conjI out a b c d e f g nj h J3 J4 i j k)
qed

theorem Outtake_releases_last_intake_witness:
  "\<exists>s0 s1 s2 s3 s4.
      session demo_engine True [Spawn_ev True RED, Spawn_ev True BLUE, Spawn_ev True RED] = Inr s0
    \<and> TryIntake 0 True s0 = Inr (True, s1)
    \<and> TryIntake 1 True s1 = Inr (True, s2)
    \<and> TryIntake 2 True s2 = Inr (True, s3)
    \<and> Outtake s3 = Inr s4
    \<and> \<not> held (blocks s4 ! 2) \<and> held (blocks s4 ! 0) \<and> held (blocks s4 ! 1)
    \<and> mHeldBlocks (robot s4) = [\<lparr>block = Some 0, joint = Some 0\<rparr>, \<lparr>block = Some 1, joint = Some 1\<rparr>]
    \<and> fixedJoints s3 = [(0, 0), (1, 1), (2, 2)]
    \<and> fixedJoints s4 = [(0, 0), (1, 1)]"
proof -
  have "\<exists>s0 s1 s2 s3.
      session demo_engine True [Spawn_ev True RED, Spawn_ev True BLUE, Spawn_ev True RED] = Inr s0
    \<and> TryIntake 0 True s0 = Inr (True, s1)
    \<and> TryIntake 1 True s1 = Inr (True, s2)
    \<and> TryIntake 2 True s2 = Inr (True, s3)
    \<and> mHeldBlocks (robot s0) = [] \<and> fixedJoints s0 = [] \<and> nextJoint s0 = 0"
    by (simp add: eval_defs del: wheels_loop.simps)
  then obtain s0 s1 s2 s3 where s:
    "session demo_engine True [Spawn_ev True RED, Spawn_ev True BLUE, Spawn_ev True RED] = Inr s0"
    "TryIntake 0 True s0 = Inr (True, s1)" "TryIntake 1 True s1 = Inr (True, s2)"
    "TryIntake 2 True s2 = Inr (True, s3)"
    "mHeldBlocks (robot s0) = []" "fixedJoints s0 = []" "nextJoint s0 = 0"
    by (elim exE conjE)
  from Outtake_releases_last_intake[OF s(2,3,4)] obtain s4 where o:
    "Outtake s3 = Inr s4" "\<not> held (blocks s4 ! 2)" "held (blocks s4 ! 0)" "held (blocks s4 ! 1)"
    "nextJoint s1 = Suc (nextJoint s0)" "nextJoint s2 = Suc (nextJoint s1)"
    "mHeldBlocks (robot s4)
         = mHeldBlocks (robot s0) @ [\<lparr>block = Some 0, joint = Some (nextJoint s0)\<rparr>,
                                     \<lparr>block = Some 1, joint = Some (nextJoint s1)\<rparr>]"
    "fixedJoints s3
         = fixedJoints s0 @ [(nextJoint s0, 0), (nextJoint s1, 1), (nextJoint s2, 2)]"
    "fixedJoints s4
         = filter (\<lambda>e. fst e \<noteq> nextJoint s2) (fixedJoints s0) @ [(nextJoint s0, 0), (nextJoint s1, 1)]"
    by blast
  show ?thesis
    using s(1-4) o(1-4) o(7-9) unfolding o(6) o(5) s(5,6,7)
    by (intro exI[of _ s0] exI[of _ s1] exI[of _ s2] exI[of _ s3] exI[of _ s4]) simp
qed

subsection \<open>Joint creation failure\<close>

text \<open>
  Claim C4 speaks of an intake that aborts when the fixed joint cannot be created.  In the
  source the block is teleported, stopped and has its filter data cleared before
  \<open>PxFixedJointCreate\<close> is called, and nothing is put back when the call returns null.
  Here a block spawned in front of the robot (at the binary32 coordinates nearest to
  \<open>(0, 0.8, 0.225)\<close>) is handed to \<open>TryIntake\<close> with the joint
  creation failing: the call returns false, the block is not held, no record and no joint
  exist, and yet the block has moved from its spawn position to the chassis centre and its
  filter data is all zero instead of the row of a free block.
\<close>

theorem TryIntake_joint_failure_moves_block:
  "\<exists>s0 s1 b0 b1.
      session demo_engine True [Spawn_ev True RED] = Inr s0
    \<and> TryIntake 0 False s0 = Inr (False, s1)
    \<and> \<not> held (blocks s1 ! 0) \<and> mHeldBlocks (robot s1) = [] \<and> fixedJoints s1 = []
    \<and> body (blocks s0 ! 0) = Some b0 \<and> body (blocks s1 ! 0) = Some b1
    \<and> pose_p (globalPose b0) = PxVec3 0 (13421773 / 2 ^ 24) (7549747 / 2 ^ 25)
    \<and> pose_p (globalPose b1) = PxVec3 0 (1 / 2) 0
    \<and> map simulationFilterData (shapes b0) = [block_row]
    \<and> map simulationFilterData (shapes b1) = [PxFilterData_default]
    \<and> s1 \<noteq> s0"
  by (simp add: eval_defs block_row_def PxFilterData_default_def del: wheels_loop.simps)

subsection \<open>A session without chassis\<close>

text \<open>
  Claim C9.  When the chassis actor cannot be created, \<open>Initialize\<close> leaves the chassis
  pointer null, and in every state such a session reaches each robot operation is inert:
  \<open>Update\<close> changes nothing, \<open>GetTransformMatrix\<close> is the identity matrix,
  \<open>GetFrontPosition\<close> is the origin, \<open>TryIntake\<close> returns false and changes nothing, and
  \<open>Outtake\<close>, which would dereference the chassis, never gets that far because the held
  sequence is empty: it returns without a fault and changes nothing.
\<close>

theorem failed_chassis_is_inert:
  assumes "session eng False evs = Inr s"
  shows "(\<exists>r. Robot_Initialize False startPos Robot_ctor = Inr r \<and> mChassis r = None)
     \<and> mChassis (robot s) = None
     \<and> mHeldBlocks (robot s) = []
     \<and> Robot_Update dt (robot s) = robot s
     \<and> GetTransformMatrix visualScale (robot s)
          = Mat4 (Vec4 1 0 0 0) (Vec4 0 1 0 0) (Vec4 0 0 1 0) (Vec4 0 0 0 1)
     \<and> GetFrontPosition (robot s) = PxVec3 0 0 0
     \<and> (\<forall>i < length (blocks s). \<forall>jointCreated. TryIntake i jointCreated s = Inr (False, s))
     \<and> Outtake s = Inr s"
proof -
  have n: "mChassis (robot s) = None" by (rule chassis_None_session[OF assms])
  have "held_ok s" using inv_session[OF assms] by (simp add: session_inv_def)
  then have e: "mHeldBlocks (robot s) = []" using n by (auto simp: held_ok_def)
  have "TryIntake i jc s = Inr (False, s)" if "i < length (blocks s)" for i jc
    using that n by (intro TryIntake_cannot) (simp_all add: can_intake_def)
  then show ?thesis
    using n e
    by (simp add: Robot_Initialize_def Robot_ctor_def Robot_Update_def GetTransformMatrix_def
        GetFrontPosition_def mat4_diag_def vec_zero_def Outtake_empty)
qed

theorem failed_chassis_is_inert_witness:
  "\<exists>s. session demo_engine False
          [Spawn_ev True RED, TryIntake_ev 0 True, IntakeKey_ev True, Outtake_ev,
           SetDriveInput_ev 1 1, Robot_Update_ev physicsTimestep, PhysicsWorld_Update_ev physicsTimestep] = Inr s
     \<and> length (blocks s) = 1
     \<and> Robot_Update physicsTimestep (robot s) = robot s
     \<and> GetTransformMatrix (round32 (1 / 100)) (robot s)
          = Mat4 (Vec4 1 0 0 0) (Vec4 0 1 0 0) (Vec4 0 0 1 0) (Vec4 0 0 0 1)
     \<and> GetFrontPosition (robot s) = PxVec3 0 0 0
     \<and> TryIntake 0 True s = Inr (False, s)
     \<and> Outtake s = Inr s"
proof -
  have "\<exists>s. session demo_engine False
          [Spawn_ev True RED, TryIntake_ev 0 True, IntakeKey_ev True, Outtake_ev,
           SetDriveInput_ev 1 1, Robot_Update_ev physicsTimestep, PhysicsWorld_Update_ev physicsTimestep] = Inr s
     \<and> length (blocks s) = 1"
    by (simp add: eval_defs intake_key_def SetDriveInput_def Robot_Update_def PhysicsWorld_Update_def
        simulate_def del: wheels_loop.simps)
  then obtain s where s: "session demo_engine False
          [Spawn_ev True RED, TryIntake_ev 0 True, IntakeKey_ev True, Outtake_ev,
           SetDriveInput_ev 1 1, Robot_Update_ev physicsTimestep, PhysicsWorld_Update_ev physicsTimestep] = Inr s"
     "length (blocks s) = 1"
    by (elim exE conjE)
  show ?thesis
    using failed_chassis_is_inert[OF s(1), of "PxVec3 0 (1 / 2) 0" physicsTimestep "round32 (1 / 100)"] s
    by (intro exI[of _ s]) simp
qed

subsection \<open>Filter data after outtake\<close>

text \<open>
  Claim C10.  Whenever something is held, \<open>Outtake\<close> succeeds, and the block it ejects
  (the one the last record refers to) ends up not held with the filter data of a free block:
  category \<open>eBLOCK\<close> and the mask of ground, chassis, wheel, obstacle and block, which is
  what \<open>SpawnBlock\<close> gives every new block.  Before the call, while held, the same shape
  carried the all-zero filter data that \<open>TryIntake\<close> wrote.
\<close>

theorem Outtake_restores_block_row:
  assumes "session eng created evs = Inr s" and "mHeldBlocks (robot s) \<noteq> []"
  shows "\<exists>s' i b b'.
       Outtake s = Inr s' \<and> block (last (mHeldBlocks (robot s))) = Some i
     \<and> body (blocks s ! i) = Some b \<and> body (blocks s' ! i) = Some b'
     \<and> held (blocks s ! i) \<and> \<not> held (blocks s' ! i)
     \<and> map simulationFilterData (shapes b) = [PxFilterData_default]
     \<and> map simulationFilterData (shapes b') = [block_row]
     \<and> word0 block_row = eBLOCK
     \<and> word1 block_row = eGROUND OR eCHASSIS OR eWHEEL OR eOBSTACLE OR eBLOCK
     \<and> (\<forall>c p blk b0. SpawnBlock True c p = Inr blk \<and> body blk = Some b0
            \<longrightarrow> map simulationFilterData (shapes b0) = [block_row])"
proof -
  have inv: "session_inv s" by (rule inv_session[OF assms(1)])
  from Outtake_inv_eject[OF inv assms(2)] obtain i b ch where
    *: "block (last (mHeldBlocks (robot s))) = Some i" "i < length (blocks s)"
    "held (blocks s ! i)" "body (blocks s ! i) = Some b"
    "Outtake s = Inr (eject i (joint (last (mHeldBlocks (robot s)))) ch b s)"
    by blast
  have "shapes_ok s" using inv by (simp add: session_inv_def)
  then obtain sh where sh: "shapes b = [sh]" "simulationFilterData sh = PxFilterData_default"
    using * unfolding shapes_ok_def by blast
  let ?s' = "eject i (joint (last (mHeldBlocks (robot s)))) ch b s"
  have b': "body (blocks ?s' ! i) = Some (eject_body ch b)" "\<not> held (blocks ?s' ! i)"
    using *(2) by (simp_all add: eject_nth)
  have f': "map simulationFilterData (shapes (eject_body ch b)) = [block_row]"
    by (simp add: shapes_eject_body[OF sh(1)] block_row_eject)
  have sp: "map simulationFilterData (shapes b0) = [block_row]"
    if "SpawnBlock True c p = Inr blk" "body blk = Some b0" for c p blk b0
    using SpawnBlock_Inr(4)[OF that(1)] that(2) by (auto simp: block_row_spawn)
  show ?thesis
    using * b' f' sh sp by (auto simp: block_row_def)
qed

theorem Outtake_restores_block_row_witness:
  "\<exists>s s' b0 b b'.
       session demo_engine True [Spawn_ev True BLUE, TryIntake_ev 0 True] = Inr s
     \<and> SpawnBlock True BLUE (PxVec3 0 (13421773 / 2 ^ 24) (7549747 / 2 ^ 25)) = Inr \<lparr>body = Some b0, color = BLUE, held = False\<rparr>
     \<and> mHeldBlocks (robot s) = [\<lparr>block = Some 0, joint = Some 0\<rparr>]
     \<and> Outtake s = Inr s'
     \<and> body (blocks s ! 0) = Some b \<and> body (blocks s' ! 0) = Some b'
     \<and> map simulationFilterData (shapes b0) = [block_row]
     \<and> map simulationFilterData (shapes b) = [PxFilterData_default]
     \<and> map simulationFilterData (shapes b') = [block_row]"
proof -
  have "\<exists>s b0. session demo_engine True [Spawn_ev True BLUE, TryIntake_ev 0 True] = Inr s
     \<and> SpawnBlock True BLUE (PxVec3 0 (13421773 / 2 ^ 24) (7549747 / 2 ^ 25)) = Inr \<lparr>body = Some b0, color = BLUE, held = False\<rparr>
     \<and> mHeldBlocks (robot s) = [\<lparr>block = Some 0, joint = Some 0\<rparr>]"
    by (simp add: eval_defs del: wheels_loop.simps)
  then obtain s b0 where s: "session demo_engine True [Spawn_ev True BLUE, TryIntake_ev 0 True] = Inr s"
    "SpawnBlock True BLUE (PxVec3 0 (13421773 / 2 ^ 24) (7549747 / 2 ^ 25)) = Inr \<lparr>body = Some b0, color = BLUE, held = False\<rparr>"
    "mHeldBlocks (robot s) = [\<lparr>block = Some 0, joint = Some 0\<rparr>]"
    by (elim exE conjE)
  have ne: "mHeldBlocks (robot s) \<noteq> []" using s(3) by simp
  from Outtake_restores_block_row[OF s(1) ne] obtain s' i b b' where o:
    "Outtake s = Inr s'" "block (last (mHeldBlocks (robot s))) = Some i"
    "body (blocks s ! i) = Some b" "body (blocks s' ! i) = Some b'"
    "held (blocks s ! i)" "\<not> held (blocks s' ! i)"
    "map simulationFilterData (shapes b) = [PxFilterData_default]"
    "map simulationFilterData (shapes b') = [block_row]"
    "word0 block_row = eBLOCK"
    "word1 block_row = eGROUND OR eCHASSIS OR eWHEEL OR eOBSTACLE OR eBLOCK"
    "\<forall>c p blk b0. SpawnBlock True c p = Inr blk \<and> body blk = Some b0
            \<longrightarrow> map simulationFilterData (shapes b0) = [block_row]"
    by (elim exE conjE)
  have i: "i = 0" using o(2) s(3) by simp
  have "map simulationFilterData (shapes b0) = [block_row]"
    using o(11) s(2) by (metis GameBlock.select_convs(1))
  then show ?thesis
    using s o(1,3,4,7,8) unfolding i
    by (intro exI[of _ s] exI[of _ s'] exI[of _ b0] exI[of _ b] exI[of _ b']) simp
qed

subsection \<open>Intake range and the nearest block\<close>

text \<open>
  Claim C6 speaks of the Euclidean distance and of the range 0.35.  The code compares the
  distance it computes in binary32 with the binary32 constant \<open>0.35f\<close>, which is
  \<open>11744051 / 2 ^ 25\<close>, a little less than 0.35.  In the session below the engine leaves two
  free blocks at the height of the front position.  Block 0 is farther than 0.35 from the
  front position, in exact arithmetic, yet its computed distance rounds to \<open>0.35f\<close>:
  \<open>TryIntake\<close> returns true and attaches it.  Block 1 is nearer to the front position than
  block 0, yet its computed distance is the same binary32 number, so the handler, which
  replaces its candidate only for a smaller computed distance, ends with block 0 and passes
  it to \<open>TryIntake\<close>.
\<close>

theorem intake_accepts_beyond_range:
  "\<exists>s s' b0 b1.
      session boundary_engine True
        [Spawn_ev True RED, Spawn_ev True BLUE, PhysicsWorld_Update_ev physicsTimestep] = Inr s
    \<and> length (blocks s) = 2
    \<and> body (blocks s ! 0) = Some b0 \<and> \<not> held (blocks s ! 0)
    \<and> body (blocks s ! 1) = Some b1 \<and> \<not> held (blocks s ! 1)
    \<and> INTAKE_RANGE < 35 / 100
    \<and> 35 / 100 < euclidean (GetFrontPosition (robot s)) (pose_p (globalPose b0))
    \<and> magnitude (vec_sub (GetFrontPosition (robot s)) (pose_p (globalPose b0))) = INTAKE_RANGE
    \<and> TryIntake 0 True s = Inr (True, s')
    \<and> held (blocks s' ! 0) \<and> mHeldBlocks (robot s') = [\<lparr>block = Some 0, joint = Some 0\<rparr>]
    \<and> euclidean (GetFrontPosition (robot s)) (pose_p (globalPose b1))
         < euclidean (GetFrontPosition (robot s)) (pose_p (globalPose b0))
    \<and> magnitude (vec_sub (GetFrontPosition (robot s)) (pose_p (globalPose b1))) = INTAKE_RANGE
    \<and> nearest_free s = Some 0
    \<and> intake_key True False True s = Inr s'"
proof -
  have "\<exists>s s' b0 b1.
      session boundary_engine True
        [Spawn_ev True RED, Spawn_ev True BLUE, PhysicsWorld_Update_ev physicsTimestep] = Inr s
    \<and> length (blocks s) = 2
    \<and> body (blocks s ! 0) = Some b0 \<and> \<not> held (blocks s ! 0)
    \<and> body (blocks s ! 1) = Some b1 \<and> \<not> held (blocks s ! 1)
    \<and> GetFrontPosition (robot s) = PxVec3 0 (1 / 2) (7549747 / 2 ^ 25)
    \<and> pose_p (globalPose b0) = PxVec3 (10311357 / 2 ^ 26) (1 / 2) (- (12008449 / 2 ^ 27))
    \<and> pose_p (globalPose b1) = PxVec3 (11587089 / 2 ^ 25) (1 / 2) (11272163 / 2 ^ 26)
    \<and> INTAKE_RANGE = 11744051 / 2 ^ 25
    \<and> magnitude (vec_sub (GetFrontPosition (robot s)) (pose_p (globalPose b0))) = INTAKE_RANGE
    \<and> magnitude (vec_sub (GetFrontPosition (robot s)) (pose_p (globalPose b1))) = INTAKE_RANGE
    \<and> TryIntake 0 True s = Inr (True, s')
    \<and> held (blocks s' ! 0) \<and> mHeldBlocks (robot s') = [\<lparr>block = Some 0, joint = Some 0\<rparr>]
    \<and> nearest_free s = Some 0 \<and> \<not> IsIntakeFull (robot s)"
    by (simp add: eval_defs PhysicsWorld_Update_def simulate_def boundary_engine_def
        set_kinematics_def nearest_free_def transform_identity_def del: wheels_loop.simps)
  then obtain s s' b0 b1 where s:
    "session boundary_engine True
        [Spawn_ev True RED, Spawn_ev True BLUE, PhysicsWorld_Update_ev physicsTimestep] = Inr s"
    "length (blocks s) = 2"
    "body (blocks s ! 0) = Some b0" "\<not> held (blocks s ! 0)"
    "body (blocks s ! 1) = Some b1" "\<not> held (blocks s ! 1)"
    "GetFrontPosition (robot s) = PxVec3 0 (1 / 2) (7549747 / 2 ^ 25)"
    "pose_p (globalPose b0) = PxVec3 (10311357 / 2 ^ 26) (1 / 2) (- (12008449 / 2 ^ 27))"
    "pose_p (globalPose b1) = PxVec3 (11587089 / 2 ^ 25) (1 / 2) (11272163 / 2 ^ 26)"
    "INTAKE_RANGE = 11744051 / 2 ^ 25"
    "magnitude (vec_sub (GetFrontPosition (robot s)) (pose_p (globalPose b0))) = INTAKE_RANGE"
    "magnitude (vec_sub (GetFrontPosition (robot s)) (pose_p (globalPose b1))) = INTAKE_RANGE"
    "TryIntake 0 True s = Inr (True, s')"
    "held (blocks s' ! 0)" "mHeldBlocks (robot s') = [\<lparr>block = Some 0, joint = Some 0\<rparr>]"
    "nearest_free s = Some 0" "\<not> IsIntakeFull (robot s)"
    by (elim exE conjE)
  have r: "INTAKE_RANGE < 35 / 100" unfolding s(10) by simp
  have far: "35 / 100 < euclidean (GetFrontPosition (robot s)) (pose_p (globalPose b0))"
    unfolding s(7,8) by (rule euclidean_greater) simp_all
  have nearer: "euclidean (GetFrontPosition (robot s)) (pose_p (globalPose b1))
         < euclidean (GetFrontPosition (robot s)) (pose_p (globalPose b0))"
    unfolding s(7,8,9) by (rule euclidean_less) simp
  have key: "intake_key True False True s = Inr s'"
    using s(13,16,17) by (simp add: intake_key_eq)
  show ?thesis
    by (intro exI[of _ s] exI[of _ s'] exI[of _ b0] exI[of _ b1] conjI
        s(1-6) r far s(11) s(13-15) nearer s(12) s(16) key)
qed

text \<open>
  Claim C6, amended.  The intake range is the binary32 number \<open>0.35f = 11744051 / 2 ^ 25\<close>,
  and the distance is the one the code computes in binary32: the difference of the front
  position and the block position, component by component, then the sum of the squares and
  the square root, each operation rounded to the nearest binary32 number.  \<open>TryIntake\<close>
  returns true only for a free block (one with a body, not held) whose computed distance is
  at most the intake range; for a free block whose computed distance is greater than the
  range it returns false and leaves the simulation as it was.  The boundary is inclusive: a
  free block whose computed distance is at most the range is taken whenever there is a
  chassis, room in the intake and the joint can be created.  On a fresh press of the
  intake key with room left, the handler searches the whole block list and calls
  \<open>TryIntake\<close> on the block it ends with.  That block is free, its computed distance is
  below 999, no free block has a smaller computed distance, and every free block before it
  in the list has a greater one.  The
  handler ends with no block, and makes no call, only when no free block has a computed
  distance below its initial bound of 999.
\<close>

theorem intake_range_and_nearest_block:
  "INTAKE_RANGE = 11744051 / 2 ^ 25
   \<and> (TryIntake i jc s = Inr (True, s') \<longrightarrow>
        (\<exists>d. free_dist (GetFrontPosition (robot s)) (blocks s ! i) = Some d \<and> d \<le> INTAKE_RANGE))
   \<and> (i < length (blocks s) \<and> free_dist (GetFrontPosition (robot s)) (blocks s ! i) = Some d
        \<and> INTAKE_RANGE < d \<longrightarrow> TryIntake i jc s = Inr (False, s))
   \<and> (i < length (blocks s) \<and> mChassis (robot s) \<noteq> None \<and> \<not> IsIntakeFull (robot s)
        \<and> free_dist (GetFrontPosition (robot s)) (blocks s ! i) = Some d \<and> d \<le> INTAKE_RANGE
        \<longrightarrow> (\<exists>s''. TryIntake i True s = Inr (True, s'')))
   \<and> intake_key True False jc s =
        (if IsIntakeFull (robot s) then Inr s
         else case nearest_free s of
                None \<Rightarrow> Inr s
              | Some j \<Rightarrow> (case TryIntake j jc s of Inl e \<Rightarrow> Inl e | Inr (ok, s') \<Rightarrow> Inr s'))
   \<and> (\<forall>j. nearest_free s = Some j \<longrightarrow>
         j < length (blocks s)
         \<and> (\<exists>dj. free_dist (GetFrontPosition (robot s)) (blocks s ! j) = Some dj \<and> dj < 999
               \<and> (\<forall>k < length (blocks s). \<forall>dk.
                     free_dist (GetFrontPosition (robot s)) (blocks s ! k) = Some dk \<longrightarrow> dj \<le> dk)
               \<and> (\<forall>k < j. \<forall>dk.
                     free_dist (GetFrontPosition (robot s)) (blocks s ! k) = Some dk \<longrightarrow> dj < dk)))
   \<and> (nearest_free s = None \<longrightarrow>
         (\<forall>k < length (blocks s). \<forall>dk.
            free_dist (GetFrontPosition (robot s)) (blocks s ! k) = Some dk \<longrightarrow> 999 \<le> dk))
   \<and> (\<forall>blk b. body blk = Some b \<and> \<not> held blk \<longrightarrow>
         free_dist (GetFrontPosition (robot s)) blk
           = Some (magnitude (vec_sub (GetFrontPosition (robot s)) (pose_p (globalPose b)))))
   \<and> magnitude (PxVec3 x y z) = fsqrt (fadd (fadd (fmul x x) (fmul y y)) (fmul z z))
   \<and> vec_sub (PxVec3 x y z) (PxVec3 x' y' z') = PxVec3 (fsub x x') (fsub y y') (fsub z z')"
proof -
  have r: "INTAKE_RANGE = 11744051 / 2 ^ 25" by (simp add: INTAKE_RANGE_def f32)
  have a: "\<exists>d. free_dist (GetFrontPosition (robot s)) (blocks s ! i) = Some d \<and> d \<le> INTAKE_RANGE"
    if "TryIntake i jc s = Inr (True, s')"
    using that by (rule TryIntake_True) (rule can_intake_free_dist)
  have b: "TryIntake i jc s = Inr (False, s)"
    if "i < length (blocks s)" "free_dist (GetFrontPosition (robot s)) (blocks s ! i) = Some d"
       "INTAKE_RANGE < d"
    using that by (rule TryIntake_out_of_range)
  have b': "\<exists>s''. TryIntake i True s = Inr (True, s'')"
    if "i < length (blocks s)" "mChassis (robot s) \<noteq> None" "\<not> IsIntakeFull (robot s)"
       "free_dist (GetFrontPosition (robot s)) (blocks s ! i) = Some d" "d \<le> INTAKE_RANGE"
    using that by (rule TryIntake_in_range)
  have c: "j < length (blocks s)
         \<and> (\<exists>dj. free_dist (GetFrontPosition (robot s)) (blocks s ! j) = Some dj \<and> dj < 999
               \<and> (\<forall>k < length (blocks s). \<forall>dk.
                     free_dist (GetFrontPosition (robot s)) (blocks s ! k) = Some dk \<longrightarrow> dj \<le> dk)
               \<and> (\<forall>k < j. \<forall>dk.
                     free_dist (GetFrontPosition (robot s)) (blocks s ! k) = Some dk \<longrightarrow> dj < dk))"
    if j: "nearest_free s = Some j" for j
  proof -
    from nearest_free_min[of s] j obtain dj where dj: "j < length (blocks s)"
      "free_dist (GetFrontPosition (robot s)) (blocks s ! j) = Some dj" "dj < 999"
      "\<forall>k < length (blocks s). \<forall>dk.
          free_dist (GetFrontPosition (robot s)) (blocks s ! k) = Some dk \<longrightarrow> dj \<le> dk"
      by blast
    have "\<forall>k < j. \<forall>dk. free_dist (GetFrontPosition (robot s)) (blocks s ! k) = Some dk \<longrightarrow> dj < dk"
      using nearest_free_first[OF j dj(2)] by blast
    then show ?thesis using dj by blast
  qed
  have e: "nearest_free s = None \<longrightarrow>
         (\<forall>k < length (blocks s). \<forall>dk.
            free_dist (GetFrontPosition (robot s)) (blocks s ! k) = Some dk \<longrightarrow> 999 \<le> dk)"
    using nearest_free_min[of s] by blast
  have f: "\<forall>blk b. body blk = Some b \<and> \<not> held blk \<longrightarrow>
         free_dist (GetFrontPosition (robot s)) blk
           = Some (magnitude (vec_sub (GetFrontPosition (robot s)) (pose_p (globalPose b))))"
    by (simp add: free_dist_def)
  show ?thesis
    using r a b b' c e f intake_key_eq[of jc s] by simp
qed

theorem intake_range_and_nearest_block_witness:
  "\<exists>s s' s0.
       session demo_engine True
         [Spawn_ev True RED, Spawn_ev True BLUE, PhysicsWorld_Update_ev physicsTimestep] = Inr s
     \<and> length (blocks s) = 2
     \<and> free_dist (GetFrontPosition (robot s)) (blocks s ! 0) = Some (9227469 / 2 ^ 25)
     \<and> free_dist (GetFrontPosition (robot s)) (blocks s ! 1) = Some (6501171 / 2 ^ 23)
     \<and> nearest_free s = Some 0
     \<and> TryIntake 0 True s = Inr (True, s')
     \<and> TryIntake 1 True s = Inr (False, s)
     \<and> intake_key True False True s = Inr s'
     \<and> session demo_engine True [] = Inr s0 \<and> nearest_free s0 = None
     \<and> intake_key True False True s0 = Inr s0"
proof -
  have "\<exists>s s' s0.
       session demo_engine True
         [Spawn_ev True RED, Spawn_ev True BLUE, PhysicsWorld_Update_ev physicsTimestep] = Inr s
     \<and> length (blocks s) = 2
     \<and> free_dist (GetFrontPosition (robot s)) (blocks s ! 0) = Some (9227469 / 2 ^ 25)
     \<and> free_dist (GetFrontPosition (robot s)) (blocks s ! 1) = Some (6501171 / 2 ^ 23)
     \<and> nearest_free s = Some 0
     \<and> TryIntake 0 True s = Inr (True, s')
     \<and> \<not> IsIntakeFull (robot s)
     \<and> session demo_engine True [] = Inr s0 \<and> nearest_free s0 = None
     \<and> \<not> IsIntakeFull (robot s0)"
    by (simp add: eval_defs PhysicsWorld_Update_def simulate_def demo_engine_def set_kinematics_def
        nearest_free_def free_dist_def transform_identity_def del: wheels_loop.simps)
  then obtain s s' s0 where s:
    "session demo_engine True
         [Spawn_ev True RED, Spawn_ev True BLUE, PhysicsWorld_Update_ev physicsTimestep] = Inr s"
    "length (blocks s) = 2"
    "free_dist (GetFrontPosition (robot s)) (blocks s ! 0) = Some (9227469 / 2 ^ 25)"
    "free_dist (GetFrontPosition (robot s)) (blocks s ! 1) = Some (6501171 / 2 ^ 23)"
    "nearest_free s = Some 0"
    "TryIntake 0 True s = Inr (True, s')"
    "\<not> IsIntakeFull (robot s)"
    "session demo_engine True [] = Inr s0" "nearest_free s0 = None"
    "\<not> IsIntakeFull (robot s0)"
    by (elim exE conjE)
  have far: "TryIntake 1 True s = Inr (False, s)"
    using intake_range_and_nearest_block[of 1 True s s' "6501171 / 2 ^ 23"] s(2,4) by simp
  have key: "intake_key True False True s = Inr s'"
    using intake_range_and_nearest_block[of 0 True s s' "9227469 / 2 ^ 25"] s(5,6,7) by simp
  have key0: "intake_key True False True s0 = Inr s0"
    using intake_range_and_nearest_block[of 0 True s0 s0 "9227469 / 2 ^ 25"] s(9,10) by simp
  show ?thesis
    using s far key key0
    by (intro exI[of _ s] exI[of _ s'] exI[of _ s0]) simp
qed

subsection \<open>Drive input\<close>

text \<open>
  Claim C7.  \<open>SetDriveInput(2, -2)\<close> followed by \<open>Update\<close> leaves the robot exactly as
  \<open>SetDriveInput(1, -1)\<close> followed by \<open>Update\<close> does, the stored inputs apart: the same
  joints with the same drive commands.  Inputs are not rejected; \<open>Update\<close> clamps them to
  \<open>[-1, 1]\<close>.  With a chassis, \<open>Update\<close> gives each of the first four joints (the left
  side) the drive velocity clamped-left times 20 and every later joint (the right side)
  clamped-right times 20, the product being the binary32 product, and sets the drive force
  limit of every joint to \<open>DRIVE_TORQUE\<close>, whatever it was before.  For the clamped inputs 1
  and -1 the products are exactly 20 and -20.
\<close>

theorem drive_inputs_are_clamped:
  "(Robot_Update dt (SetDriveInput 2 (- 2) r))\<lparr>mThrottleInput := 1, mTurnInput := - 1\<rparr>
      = Robot_Update dt (SetDriveInput 1 (- 1) r)
   \<and> length (mWheelJoints (Robot_Update dt (SetDriveInput left right r))) = length (mWheelJoints r)
   \<and> (mChassis r \<noteq> None \<longrightarrow>
        (\<forall>i < length (mWheelJoints r).
           driveVelocity (mWheelJoints (Robot_Update dt (SetDriveInput left right r)) ! i)
             = fmul (if i < 4 then max (- 1) (min 1 left) else max (- 1) (min 1 right)) 20
         \<and> driveForceLimit (mWheelJoints (Robot_Update dt (SetDriveInput left right r)) ! i)
             = DRIVE_TORQUE))
   \<and> fmul 1 20 = 20 \<and> fmul (- 1) 20 = - 20"
  by (simp add: Robot_Update_def SetDriveInput_def Let_def nth_enumerate_eq f32)

theorem drive_inputs_are_clamped_witness:
  "\<exists>s. session demo_engine True [] = Inr s
     \<and> length (mWheelJoints (robot s)) = 8
     \<and> mWheelJoints (Robot_Update physicsTimestep (SetDriveInput 2 (- 2) (robot s)))
         = mWheelJoints (Robot_Update physicsTimestep (SetDriveInput 1 (- 1) (robot s)))
     \<and> driveVelocity (mWheelJoints (Robot_Update physicsTimestep (SetDriveInput 2 (- 2) (robot s))) ! 0) = 20
     \<and> driveVelocity (mWheelJoints (Robot_Update physicsTimestep (SetDriveInput 2 (- 2) (robot s))) ! 7) = - 20
     \<and> driveForceLimit (mWheelJoints (Robot_Update physicsTimestep (SetDriveInput 2 (- 2) (robot s))) ! 7) = 500"
proof -
  have "\<exists>s. session demo_engine True [] = Inr s
     \<and> length (mWheelJoints (robot s)) = 8 \<and> mChassis (robot s) \<noteq> None"
    by (simp add: eval_defs del: wheels_loop.simps)
  then obtain s where s: "session demo_engine True [] = Inr s"
    "length (mWheelJoints (robot s)) = 8" "mChassis (robot s) \<noteq> None"
    by (elim exE conjE)
  note t = drive_inputs_are_clamped[of physicsTimestep "robot s" 2 "- 2"]
  have "mWheelJoints ((Robot_Update physicsTimestep (SetDriveInput 2 (- 2) (robot s)))\<lparr>mThrottleInput := 1, mTurnInput := - 1\<rparr>)
          = mWheelJoints (Robot_Update physicsTimestep (SetDriveInput 1 (- 1) (robot s)))"
    using t by (simp only:)
  then have eq: "mWheelJoints (Robot_Update physicsTimestep (SetDriveInput 2 (- 2) (robot s)))
         = mWheelJoints (Robot_Update physicsTimestep (SetDriveInput 1 (- 1) (robot s)))"
    by simp
  show ?thesis
    using s eq t by (intro exI[of _ s]) (simp add: DRIVE_TORQUE_def)
qed

subsection \<open>Fixed-step drain\<close>

lemma physicsTimestep_value: "physicsTimestep = 8947849 / 2 ^ 29"
  by (simp add: physicsTimestep_def f32)

lemma fixed_step_drain_twice:
  assumes "physicsTimestep \<le> acc" and "physicsTimestep \<le> fsub acc physicsTimestep"
    and "fsub (fsub acc physicsTimestep) physicsTimestep < physicsTimestep"
  shows "fixed_step_drain eng acc s []
       = Some (fsub (fsub acc physicsTimestep) physicsTimestep,
          PhysicsWorld_Update eng physicsTimestep
            ((PhysicsWorld_Update eng physicsTimestep (s\<lparr>robot := Robot_Update physicsTimestep (robot s)\<rparr>))
               \<lparr>robot := Robot_Update physicsTimestep
                   (robot (PhysicsWorld_Update eng physicsTimestep
                             (s\<lparr>robot := Robot_Update physicsTimestep (robot s)\<rparr>)))\<rparr>),
          [Robot_Update_call physicsTimestep, PhysicsWorld_Update_call physicsTimestep,
           Robot_Update_call physicsTimestep, PhysicsWorld_Update_call physicsTimestep])"
proof -
  let ?s1 = "PhysicsWorld_Update eng physicsTimestep (s\<lparr>robot := Robot_Update physicsTimestep (robot s)\<rparr>)"
  let ?s2 = "PhysicsWorld_Update eng physicsTimestep (?s1\<lparr>robot := Robot_Update physicsTimestep (robot ?s1)\<rparr>)"
  let ?c = "[Robot_Update_call physicsTimestep, PhysicsWorld_Update_call physicsTimestep]"
  have 1: "fixed_step_drain eng acc s [] = fixed_step_drain eng (fsub acc physicsTimestep) ?s1 ?c"
    using assms(1) by (subst fixed_step_drain.simps) simp
  have 2: "fixed_step_drain eng (fsub acc physicsTimestep) ?s1 ?c
            = fixed_step_drain eng (fsub (fsub acc physicsTimestep) physicsTimestep) ?s2 (?c @ ?c)"
    using assms(2) by (subst fixed_step_drain.simps) simp
  have 3: "fixed_step_drain eng (fsub (fsub acc physicsTimestep) physicsTimestep) ?s2 (?c @ ?c)
            = Some (fsub (fsub acc physicsTimestep) physicsTimestep, ?s2, ?c @ ?c)"
    using assms(3) by (subst fixed_step_drain.simps) simp
  show ?thesis
    unfolding 1 2 3 by simp
qed

lemma drain_values:
  "fmul (5 / 2) physicsTimestep = 11184811 / 2 ^ 28"
  "fsub (11184811 / 2 ^ 28) physicsTimestep = 13421773 / 2 ^ 29"
  "fsub (13421773 / 2 ^ 29) physicsTimestep = 1118481 / 2 ^ 27"
  "fmul (1 / 2) physicsTimestep = 8947849 / 2 ^ 30"
  by (simp_all add: physicsTimestep_value f32)

lemma fixed_step_drain_five_halves:
  "fixed_step_drain eng (fmul (5 / 2) physicsTimestep) s []
       = Some (1118481 / 2 ^ 27,
          PhysicsWorld_Update eng physicsTimestep
            ((PhysicsWorld_Update eng physicsTimestep (s\<lparr>robot := Robot_Update physicsTimestep (robot s)\<rparr>))
               \<lparr>robot := Robot_Update physicsTimestep
                   (robot (PhysicsWorld_Update eng physicsTimestep
                             (s\<lparr>robot := Robot_Update physicsTimestep (robot s)\<rparr>)))\<rparr>),
          [Robot_Update_call physicsTimestep, PhysicsWorld_Update_call physicsTimestep,
           Robot_Update_call physicsTimestep, PhysicsWorld_Update_call physicsTimestep])"
proof -
  have v0: "fmul (5 / 2) physicsTimestep = 11184811 / 2 ^ 28" by (rule drain_values)
  have v1: "fsub (fmul (5 / 2) physicsTimestep) physicsTimestep = 13421773 / 2 ^ 29"
    unfolding v0 by (rule drain_values)
  have v2: "fsub (fsub (fmul (5 / 2) physicsTimestep) physicsTimestep) physicsTimestep = 1118481 / 2 ^ 27"
    unfolding v1 by (rule drain_values)
  have a1: "physicsTimestep \<le> fmul (5 / 2) physicsTimestep"
    unfolding v0 by (simp add: physicsTimestep_value)
  have a2: "physicsTimestep \<le> fsub (fmul (5 / 2) physicsTimestep) physicsTimestep"
    unfolding v1 by (simp add: physicsTimestep_value)
  have a3: "fsub (fsub (fmul (5 / 2) physicsTimestep) physicsTimestep) physicsTimestep < physicsTimestep"
    unfolding v2 by (simp add: physicsTimestep_value)
  show ?thesis
    using fixed_step_drain_twice[OF a1 a2 a3, of eng s] unfolding v2 .
qed

text \<open>
  Claim C8 speaks of a step of 1/60 and of half a step left over.  In the source the step
  is the binary32 quotient \<open>1.0f / 60.0f = 8947849 / 2 ^ 29\<close>, and 2.5 steps in the
  accumulator are the binary32 number \<open>11184811 / 2 ^ 28\<close>.  From the state \<open>main\<close> sets up,
  the drain loop runs twice and leaves \<open>1118481 / 2 ^ 27\<close>, which is less than half a
  step: half a step is \<open>8947849 / 2 ^ 30\<close>, whether it is taken exactly or as the binary32
  product \<open>0.5f * physicsTimestep\<close>.
\<close>

theorem fixed_step_drain_leaves_less_than_half:
  "\<exists>s0 s2 calls.
      main_setup True = Inr s0
    \<and> fixed_step_drain demo_engine (fmul (5 / 2) physicsTimestep) s0 []
        = Some (1118481 / 2 ^ 27, s2, calls)
    \<and> length calls = 4
    \<and> fmul (1 / 2) physicsTimestep = physicsTimestep / 2
    \<and> (1118481 / 2 ^ 27 :: real) < physicsTimestep / 2
    \<and> (1118481 / 2 ^ 27 :: real) \<noteq> physicsTimestep / 2"
proof -
  obtain s0 where s0: "main_setup True = Inr s0"
    by (simp add: main_setup_def Robot_Initialize_def CreateWheels_def Let_def)
  have h: "fmul (1 / 2) physicsTimestep = physicsTimestep / 2"
    unfolding drain_values by (simp add: physicsTimestep_value)
  have l: "(1118481 / 2 ^ 27 :: real) < physicsTimestep / 2"
    by (simp add: physicsTimestep_value)
  show ?thesis
    using s0 fixed_step_drain_five_halves[of demo_engine s0] h l by simp
qed

text \<open>
  Claim C8, amended.  The fixed step is the binary32 number \<open>1.0f / 60.0f = 8947849 / 2 ^ 29\<close>.
  With 2.5 steps in the accumulator, that is the binary32 product of 2.5 and the step,
  \<open>11184811 / 2 ^ 28\<close>, the drain loop of a frame ends after exactly two turns: it calls
  \<open>Robot::Update\<close> and then \<open>PhysicsWorld::Update\<close>, each with the fixed step, and the same
  pair once more.  The simulation that results is the one these four calls produce in that
  order, and the accumulator is left at \<open>1118481 / 2 ^ 27\<close>, which is half a step less
  \<open>2 ^ -30\<close>.
\<close>

theorem fixed_step_drain_two_and_a_half:
  "physicsTimestep = 8947849 / 2 ^ 29
   \<and> fmul (5 / 2) physicsTimestep = 11184811 / 2 ^ 28
   \<and> fixed_step_drain eng (fmul (5 / 2) physicsTimestep) s []
       = Some (1118481 / 2 ^ 27,
          PhysicsWorld_Update eng physicsTimestep
            ((PhysicsWorld_Update eng physicsTimestep (s\<lparr>robot := Robot_Update physicsTimestep (robot s)\<rparr>))
               \<lparr>robot := Robot_Update physicsTimestep
                   (robot (PhysicsWorld_Update eng physicsTimestep
                             (s\<lparr>robot := Robot_Update physicsTimestep (robot s)\<rparr>)))\<rparr>),
          [Robot_Update_call physicsTimestep, PhysicsWorld_Update_call physicsTimestep,
           Robot_Update_call physicsTimestep, PhysicsWorld_Update_call physicsTimestep])
   \<and> (1118481 / 2 ^ 27 :: real) = physicsTimestep / 2 - 1 / 2 ^ 30"
proof -
  have "(1118481 / 2 ^ 27 :: real) = physicsTimestep / 2 - 1 / 2 ^ 30"
    by (simp add: physicsTimestep_value)
  then show ?thesis
    using physicsTimestep_value drain_values(1) fixed_step_drain_five_halves[of eng s]
    by (intro conjI)
qed

end
